theory Spec2Isabelle
  imports Complex_Main
begin

section \<open>The PID notebook as a state-passing program\<close>

text \<open>
  The notebook \<^verbatim>\<open>PID-checkpoint.ipynb\<close> is a sequence of cells that assign global
  variables. Each code cell is modelled as a function from the notebook's globals to an
  error or the updated globals; running the notebook from top to bottom is their
  composition. The literals typed into the cells "Initialization" and "Parameters"
  (\<^verbatim>\<open>Fs = 100\<close>, \<^verbatim>\<open>Tf = 10\<close>, \<^verbatim>\<open>Ti = 0\<close>, \<^verbatim>\<open>tau = 2\<close>, \<^verbatim>\<open>Kp = 5\<close>, \<^verbatim>\<open>Ki = 5\<close>,
  \<^verbatim>\<open>Kd = 0.1\<close>) are the configuration; everything else is computed from them.

  Numbers: the notebook computes in Python floats and numpy \<^verbatim>\<open>float64\<close> arrays. Two models
  of them are given. In the first, a number is an exact real, so rounding, overflow to
  infinity and NaN are outside it; it carries the claims about which entries the loop
  reads and writes, and in which order (C1, C2, C4 to C7, C10). In the second (section
  "The notebook in float64 arithmetic") a number is a finite value, an infinity or NaN,
  every operation rounds, and the numeric operations raise what Python and numpy raise; it
  carries the claims that depend on rounding, overflow and exceptions (C3, C8, C9).
  \<^verbatim>\<open>n_samples\<close> is a Python \<^verbatim>\<open>int\<close> (the result of \<^verbatim>\<open>math.floor\<close>) and is an \<open>int\<close> here.
  Arrays are lists; an index is a natural number, since the loop only uses \<^verbatim>\<open>i\<close> and
  \<^verbatim>\<open>i+1\<close> for \<^verbatim>\<open>i\<close> in \<^verbatim>\<open>range(0, n_samples)\<close>.
\<close>

subsection \<open>Errors, configuration, globals\<close>

datatype py_error = ZeroDivisionError | ValueError | IndexError | OverflowError | MemoryError

record config =
  Fs :: real
  Tf :: real
  Ti :: real
  tau :: real
  Kp :: real
  Ki :: real
  Kd :: real

record globals =
  Ts :: real
  n_samples :: int
  t :: "real list"
  m :: "real list"
  m_cont :: "real list"
  y_open_loop :: "real list"
  y :: "real list"
  y_sp :: "real list"
  e :: "real list"
  int_e :: "real list"
  diff_e :: "real list"

text \<open>Sequencing of cells and statements: the first exception ends the run.\<close>

definition and_then :: "py_error + 'a \<Rightarrow> ('a \<Rightarrow> py_error + 'b) \<Rightarrow> py_error + 'b" where
  "and_then r f = (case r of Inl err \<Rightarrow> Inl err | Inr v \<Rightarrow> f v)"

subsection \<open>The numpy constructors the notebook calls\<close>

text \<open>
  \<^verbatim>\<open>np.ones(k)\<close> and \<^verbatim>\<open>np.zeros(k)\<close> raise \<^verbatim>\<open>ValueError\<close> (negative dimensions are not
  allowed) for \<^verbatim>\<open>k < 0\<close>.
\<close>

definition np_ones :: "int \<Rightarrow> py_error + real list" where
  "np_ones k = (if k < 0 then Inl ValueError else Inr (replicate (nat k) 1))"

definition np_zeros :: "int \<Rightarrow> py_error + real list" where
  "np_zeros k = (if k < 0 then Inl ValueError else Inr (replicate (nat k) 0))"

text \<open>
  \<^verbatim>\<open>np.arange(start, stop, step)\<close> has \<open>\<lceil>(stop - start) / step\<rceil>\<close> entries (none when that
  is not positive), the \<open>i\<close>-th being \<open>start + i * step\<close>. Its only call in the notebook is
  reached with \<open>step \<noteq> 0\<close>.
\<close>

definition np_arange :: "real \<Rightarrow> real \<Rightarrow> real \<Rightarrow> real list" where
  "np_arange start stop step =
     map (\<lambda>i. start + real i * step) [0 ..< nat \<lceil>(stop - start) / step\<rceil>]"

subsection \<open>The cells\<close>

text \<open>
  Cell "Initialization": \<^verbatim>\<open>Ts = 1 / Fs\<close>. Python raises \<^verbatim>\<open>ZeroDivisionError\<close> on a zero
  divisor.
\<close>

definition initialization :: "config \<Rightarrow> globals \<Rightarrow> py_error + globals" where
  "initialization c g =
     (if Fs c = 0 then Inl ZeroDivisionError else Inr (g\<lparr>Ts := 1 / Fs c\<rparr>))"

text \<open>
  Cell "Number of samples": \<^verbatim>\<open>n_samples = math.floor(Tf / Ts)\<close>, then
  \<^verbatim>\<open>t = np.arange(Ti,Tf,Ts)\<close>.
\<close>

definition number_of_samples :: "config \<Rightarrow> globals \<Rightarrow> py_error + globals" where
  "number_of_samples c g =
     (if Ts g = 0 then Inl ZeroDivisionError
      else Inr (g\<lparr>n_samples := \<lfloor>Tf c / Ts g\<rfloor>, t := np_arange (Ti c) (Tf c) (Ts g)\<rparr>))"

text \<open>
  Cell "Step response": the eight arrays of \<^verbatim>\<open>n_samples+1\<close> entries, in the order of the
  source. \<^verbatim>\<open>m\<close> is the open-loop forcing input (all ones), \<^verbatim>\<open>y_sp\<close> the reference
  (\<^verbatim>\<open>2*np.ones(n_samples+1)\<close>), the others start as zeros.
\<close>

definition step_response :: "globals \<Rightarrow> py_error + globals" where
  "step_response g =
     and_then (np_ones (n_samples g + 1)) (\<lambda>a1.
     and_then (np_zeros (n_samples g + 1)) (\<lambda>a2.
     and_then (np_zeros (n_samples g + 1)) (\<lambda>a3.
     and_then (np_zeros (n_samples g + 1)) (\<lambda>a4.
     and_then (np_ones (n_samples g + 1)) (\<lambda>a5.
     and_then (np_zeros (n_samples g + 1)) (\<lambda>a6.
     and_then (np_zeros (n_samples g + 1)) (\<lambda>a7.
     and_then (np_zeros (n_samples g + 1)) (\<lambda>a8.
       Inr (g\<lparr>m := a1, m_cont := a2, y_open_loop := a3, y := a4,
              y_sp := map (\<lambda>x. 2 * x) a5, e := a6, int_e := a7, diff_e := a8\<rparr>)))))))))"

text \<open>
  The six assignments of the loop body, at loop index \<open>i\<close>. An array access beyond the end
  raises \<^verbatim>\<open>IndexError\<close>; every statement reads index \<open>i\<close> or \<open>i+1\<close> and writes index
  \<open>i+1\<close>. \<^verbatim>\<open>Ts/tau\<close> divides a Python float by a Python number and raises
  \<^verbatim>\<open>ZeroDivisionError\<close> for \<^verbatim>\<open>tau = 0\<close>, before any array is read. In
  \<^verbatim>\<open>(e[i+1] - e[i]) /Ts\<close> the dividend is a numpy scalar, which does not raise; the model
  covers \<open>Ts \<noteq> 0\<close> there, which is what cell "Initialization" leaves behind.
\<close>

definition set_y_open_loop :: "config \<Rightarrow> nat \<Rightarrow> globals \<Rightarrow> py_error + globals" where
  "set_y_open_loop c i g =
     (if tau c = 0 then Inl ZeroDivisionError
      else if \<not> (i < length (y_open_loop g) \<and> i < length (m g) \<and> i + 1 < length (y_open_loop g))
        then Inl IndexError
      else Inr (g\<lparr>y_open_loop := (y_open_loop g)
              [i + 1 := (1 - (Ts g / tau c)) * y_open_loop g ! i + (Ts g / tau c) * m g ! i]\<rparr>))"

definition set_y :: "config \<Rightarrow> nat \<Rightarrow> globals \<Rightarrow> py_error + globals" where
  "set_y c i g =
     (if tau c = 0 then Inl ZeroDivisionError
      else if \<not> (i < length (y g) \<and> i < length (m_cont g) \<and> i + 1 < length (y g))
        then Inl IndexError
      else Inr (g\<lparr>y := (y g)
              [i + 1 := (1 - (Ts g / tau c)) * y g ! i + (Ts g / tau c) * m_cont g ! i]\<rparr>))"

definition set_e :: "nat \<Rightarrow> globals \<Rightarrow> py_error + globals" where
  "set_e i g =
     (if \<not> (i + 1 < length (y_sp g) \<and> i + 1 < length (y g) \<and> i + 1 < length (e g))
        then Inl IndexError
      else Inr (g\<lparr>e := (e g)[i + 1 := y_sp g ! (i + 1) - y g ! (i + 1)]\<rparr>))"

definition set_int_e :: "nat \<Rightarrow> globals \<Rightarrow> py_error + globals" where
  "set_int_e i g =
     (if \<not> (i < length (int_e g) \<and> i + 1 < length (e g) \<and> i + 1 < length (int_e g))
        then Inl IndexError
      else Inr (g\<lparr>int_e := (int_e g)[i + 1 := int_e g ! i + Ts g * e g ! (i + 1)]\<rparr>))"

definition set_diff_e :: "nat \<Rightarrow> globals \<Rightarrow> py_error + globals" where
  "set_diff_e i g =
     (if \<not> (i + 1 < length (e g) \<and> i < length (e g) \<and> i + 1 < length (diff_e g))
        then Inl IndexError
      else Inr (g\<lparr>diff_e := (diff_e g)[i + 1 := (e g ! (i + 1) - e g ! i) / Ts g]\<rparr>))"

definition set_m_cont :: "config \<Rightarrow> nat \<Rightarrow> globals \<Rightarrow> py_error + globals" where
  "set_m_cont c i g =
     (if \<not> (i + 1 < length (e g) \<and> i + 1 < length (int_e g) \<and> i + 1 < length (diff_e g)
             \<and> i + 1 < length (m_cont g))
        then Inl IndexError
      else Inr (g\<lparr>m_cont := (m_cont g)
              [i + 1 := Kp c * e g ! (i + 1) + Ki c * int_e g ! (i + 1) + Kd c * diff_e g ! (i + 1)]\<rparr>))"

definition loop_body :: "config \<Rightarrow> nat \<Rightarrow> globals \<Rightarrow> py_error + globals" where
  "loop_body c i g =
     and_then (set_y_open_loop c i g) (\<lambda>g1.
     and_then (set_y c i g1) (\<lambda>g2.
     and_then (set_e i g2) (\<lambda>g3.
     and_then (set_int_e i g3) (\<lambda>g4.
     and_then (set_diff_e i g4) (\<lambda>g5.
       set_m_cont c i g5)))))"

text \<open>\<^verbatim>\<open>for i in ...\<close>: the body at each index in turn, stopping at the first exception.\<close>

fun for_loop :: "(nat \<Rightarrow> 's \<Rightarrow> py_error + 's) \<Rightarrow> nat list \<Rightarrow> 's \<Rightarrow> py_error + 's" where
  "for_loop body [] s = Inr s"
| "for_loop body (i # is) s = and_then (body i s) (for_loop body is)"

text \<open>
  The simulation cell: \<^verbatim>\<open>for i in range(0,n_samples)\<close>. The range is empty when
  \<^verbatim>\<open>n_samples\<close> is not positive.
\<close>

definition simulation :: "config \<Rightarrow> globals \<Rightarrow> py_error + globals" where
  "simulation c g = for_loop (loop_body c) [0 ..< nat (n_samples g)] g"

text \<open>Running all cells in order, from whatever the kernel held before.\<close>

definition run_all :: "config \<Rightarrow> globals \<Rightarrow> py_error + globals" where
  "run_all c g0 =
     and_then (initialization c g0) (\<lambda>g1.
     and_then (number_of_samples c g1) (\<lambda>g2.
     and_then (step_response g2) (\<lambda>g3.
       simulation c g3)))"

subsection \<open>Configurations and states the theorems speak about\<close>

text \<open>
  The configurations the specification calls valid: \<open>Ts > 0\<close>, \<open>tau > 0\<close>, \<open>n \<ge> 1\<close>, where
  \<open>Ts\<close> and \<open>n\<close> are what the first two cells compute, \<open>1 / Fs\<close> and \<open>\<lfloor>Tf / Ts\<rfloor>\<close>.
\<close>

definition valid_config :: "config \<Rightarrow> bool" where
  "valid_config c \<longleftrightarrow> 0 < 1 / Fs c \<and> 0 < tau c \<and> 1 \<le> \<lfloor>Tf c / (1 / Fs c)\<rfloor>"

text \<open>The values the notebook itself assigns (\<^verbatim>\<open>Kd = 0.1\<close> as the fraction it denotes).\<close>

definition notebook_config :: config where
  "notebook_config = \<lparr>Fs = 100, Tf = 10, Ti = 0, tau = 2, Kp = 5, Ki = 5, Kd = 1 / 10\<rparr>"

text \<open>
  Three more for closed examples: a run of two loop passes, the state its step-response
  cell leaves behind, and the specification's divergence scenario, \<open>Ts = 3\<close> and \<open>tau = 1\<close>,
  with four loop passes.
\<close>

definition small_config :: config where
  "small_config = \<lparr>Fs = 1, Tf = 2, Ti = 0, tau = 2, Kp = 5, Ki = 5, Kd = 1 / 10\<rparr>"

definition allocated_2 :: globals where
  "allocated_2 = \<lparr>Ts = 1, n_samples = 2, t = [0, 1], m = [1, 1, 1], m_cont = [0, 0, 0],
                  y_open_loop = [0, 0, 0], y = [0, 0, 0], y_sp = [2, 2, 2], e = [0, 0, 0],
                  int_e = [0, 0, 0], diff_e = [0, 0, 0]\<rparr>"

definition unstable_config :: config where
  "unstable_config = \<lparr>Fs = 1 / 3, Tf = 12, Ti = 0, tau = 1, Kp = 5, Ki = 5, Kd = 1 / 10\<rparr>"


definition fractional_config :: config where
  "fractional_config = \<lparr>Fs = 1, Tf = 5 / 2, Ti = 0, tau = 2, Kp = 5, Ki = 5, Kd = 1 / 10\<rparr>"

text \<open>A kernel state before any cell ran, for closed examples: no samples, empty arrays.\<close>

definition blank :: globals where
  "blank = \<lparr>Ts = 0, n_samples = 0, t = [], m = [], m_cont = [], y_open_loop = [], y = [],
            y_sp = [], e = [], int_e = [], diff_e = []\<rparr>"

text \<open>All eight arrays of the step-response cell have \<open>N\<close> entries.\<close>

definition sized :: "nat \<Rightarrow> globals \<Rightarrow> bool" where
  "sized N g \<longleftrightarrow>
     length (m g) = N \<and> length (m_cont g) = N \<and> length (y_open_loop g) = N \<and>
     length (y g) = N \<and> length (y_sp g) = N \<and> length (e g) = N \<and>
     length (int_e g) = N \<and> length (diff_e g) = N"

text \<open>What the loop only reads is the same in \<open>g\<close> and \<open>r\<close>.\<close>

definition same_inputs :: "globals \<Rightarrow> globals \<Rightarrow> bool" where
  "same_inputs g r \<longleftrightarrow>
     Ts r = Ts g \<and> n_samples r = n_samples g \<and> t r = t g \<and> m r = m g \<and> y_sp r = y_sp g"

text \<open>The six arrays the loop writes hold the same values at index \<open>j\<close> in \<open>g\<close> and \<open>r\<close>.\<close>

definition same_at :: "nat \<Rightarrow> globals \<Rightarrow> globals \<Rightarrow> bool" where
  "same_at j g r \<longleftrightarrow>
     y_open_loop r ! j = y_open_loop g ! j \<and> y r ! j = y g ! j \<and> e r ! j = e g ! j \<and>
     int_e r ! j = int_e g ! j \<and> diff_e r ! j = diff_e g ! j \<and> m_cont r ! j = m_cont g ! j"

text \<open>The six assignments of loop pass \<open>i\<close>, read as equations between the entries of \<open>g\<close>.\<close>

definition recurrence :: "config \<Rightarrow> globals \<Rightarrow> nat \<Rightarrow> bool" where
  "recurrence c g i \<longleftrightarrow>
     y_open_loop g ! (i + 1) =
       (1 - (Ts g / tau c)) * y_open_loop g ! i + (Ts g / tau c) * m g ! i \<and>
     y g ! (i + 1) = (1 - (Ts g / tau c)) * y g ! i + (Ts g / tau c) * m_cont g ! i \<and>
     e g ! (i + 1) = y_sp g ! (i + 1) - y g ! (i + 1) \<and>
     int_e g ! (i + 1) = int_e g ! i + Ts g * e g ! (i + 1) \<and>
     diff_e g ! (i + 1) = (e g ! (i + 1) - e g ! i) / Ts g \<and>
     m_cont g ! (i + 1) =
       Kp c * e g ! (i + 1) + Ki c * int_e g ! (i + 1) + Kd c * diff_e g ! (i + 1)"

section \<open>The notebook in float64 arithmetic\<close>

text \<open>
  The second model of the notebook. A number is a finite real, an infinity or NaN. Every
  arithmetic operation computes the exact result of its finite operands and rounds it with
  a rounding function \<open>r\<close>, which also decides when a result overflows to an infinity; on
  the other operands it follows IEEE 754. The rounding function is a parameter, so that a
  theorem of this model holds for every rounding, the one of \<^verbatim>\<open>float64\<close> included
  (\<open>binary64\<close> below). The two zeros of IEEE 754 are one value here: their sign shows only
  in a division by zero, which Python raises on and numpy is never asked for (the loop
  divides by \<^verbatim>\<open>Ts\<close>, which is not zero once the second cell has run).
\<close>

subsection \<open>Floating-point values and operations\<close>

datatype f64 = Finite real | PInf | NInf | NaN

fun is_zero :: "f64 \<Rightarrow> bool" where
  "is_zero (Finite u) \<longleftrightarrow> u = 0"
| "is_zero v \<longleftrightarrow> False"

fun is_finite :: "f64 \<Rightarrow> bool" where
  "is_finite (Finite u) \<longleftrightarrow> True"
| "is_finite v \<longleftrightarrow> False"

fun negative :: "f64 \<Rightarrow> bool" where
  "negative (Finite u) \<longleftrightarrow> u < 0"
| "negative NInf \<longleftrightarrow> True"
| "negative v \<longleftrightarrow> False"

fun fneg :: "f64 \<Rightarrow> f64" where
  "fneg (Finite u) = Finite (- u)"
| "fneg PInf = NInf"
| "fneg NInf = PInf"
| "fneg NaN = NaN"

text \<open>
  Addition, subtraction, multiplication and division, as numpy computes them on scalars:
  none of them raises (numpy warns and goes on).
\<close>

fun fadd :: "(real \<Rightarrow> f64) \<Rightarrow> f64 \<Rightarrow> f64 \<Rightarrow> f64" where
  "fadd r (Finite u) (Finite v) = r (u + v)"
| "fadd r NaN b = NaN"
| "fadd r a NaN = NaN"
| "fadd r PInf NInf = NaN"
| "fadd r NInf PInf = NaN"
| "fadd r PInf b = PInf"
| "fadd r a PInf = PInf"
| "fadd r NInf b = NInf"
| "fadd r a NInf = NInf"

definition fsub :: "(real \<Rightarrow> f64) \<Rightarrow> f64 \<Rightarrow> f64 \<Rightarrow> f64" where
  "fsub r a b = fadd r a (fneg b)"

fun fmul :: "(real \<Rightarrow> f64) \<Rightarrow> f64 \<Rightarrow> f64 \<Rightarrow> f64" where
  "fmul r (Finite u) (Finite v) = r (u * v)"
| "fmul r NaN b = NaN"
| "fmul r a NaN = NaN"
| "fmul r a b =
     (if is_zero a \<or> is_zero b then NaN else if negative a = negative b then PInf else NInf)"

fun fdiv :: "(real \<Rightarrow> f64) \<Rightarrow> f64 \<Rightarrow> f64 \<Rightarrow> f64" where
  "fdiv r NaN b = NaN"
| "fdiv r a NaN = NaN"
| "fdiv r (Finite u) (Finite v) =
     (if v = 0 then (if u = 0 then NaN else if u < 0 then NInf else PInf) else r (u / v))"
| "fdiv r (Finite u) b = Finite 0"
| "fdiv r a (Finite v) = (if negative a = (v < 0) then PInf else NInf)"
| "fdiv r a b = NaN"


fun fless :: "f64 \<Rightarrow> f64 \<Rightarrow> bool" where
  "fless (Finite u) (Finite v) \<longleftrightarrow> u < v"
| "fless NaN b \<longleftrightarrow> False"
| "fless a NaN \<longleftrightarrow> False"
| "fless PInf b \<longleftrightarrow> False"
| "fless a NInf \<longleftrightarrow> False"
| "fless a b \<longleftrightarrow> True"

text \<open>
  Python's own \<^verbatim>\<open>/\<close> on floats raises \<^verbatim>\<open>ZeroDivisionError\<close> on a zero divisor and
  otherwise divides as above (an overflow gives an infinity, not an exception).
  \<^verbatim>\<open>math.floor\<close> raises \<^verbatim>\<open>ValueError\<close> on NaN and \<^verbatim>\<open>OverflowError\<close> on an infinity.
\<close>

definition py_truediv :: "(real \<Rightarrow> f64) \<Rightarrow> f64 \<Rightarrow> f64 \<Rightarrow> py_error + f64" where
  "py_truediv r a b = (if is_zero b then Inl ZeroDivisionError else Inr (fdiv r a b))"

fun math_floor :: "f64 \<Rightarrow> py_error + int" where
  "math_floor (Finite u) = Inr \<lfloor>u\<rfloor>"
| "math_floor NaN = Inl ValueError"
| "math_floor v = Inl OverflowError"

subsection \<open>The platform\<close>

text \<open>
  What the notebook takes from the machine and from numpy: the rounding of \<^verbatim>\<open>float64\<close>;
  the exception, if any, that allocating an array of \<open>k\<close> entries raises
  (\<^verbatim>\<open>MemoryError\<close>, or another one for a length beyond the index type); and
  \<^verbatim>\<open>np.arange\<close> on floats, whose length and exceptions depend on the numpy at hand.
  \<open>lit\<close> is the float a number typed into a cell denotes; a number beyond the largest
  float denotes an infinity, as a float literal does (an integer literal of that size, on
  which Python's mixed arithmetic raises \<^verbatim>\<open>OverflowError\<close>, is outside the model).
\<close>

record platform =
  rnd :: "real \<Rightarrow> f64"
  alloc_error :: "int \<Rightarrow> py_error option"
  arange :: "f64 \<Rightarrow> f64 \<Rightarrow> f64 \<Rightarrow> py_error + f64 list"

definition lit :: "platform \<Rightarrow> real \<Rightarrow> f64" where
  "lit P u = rnd P u"

text \<open>
  \<^verbatim>\<open>np.ones(k)\<close> and \<^verbatim>\<open>np.zeros(k)\<close>: the exception of the platform, or \<^verbatim>\<open>ValueError\<close>
  for \<open>k < 0\<close>.
\<close>

definition np_ones64 :: "platform \<Rightarrow> int \<Rightarrow> py_error + f64 list" where
  "np_ones64 P k =
     (case alloc_error P k of
        Some err \<Rightarrow> Inl err
      | None \<Rightarrow> if k < 0 then Inl ValueError else Inr (replicate (nat k) (Finite 1)))"

definition np_zeros64 :: "platform \<Rightarrow> int \<Rightarrow> py_error + f64 list" where
  "np_zeros64 P k =
     (case alloc_error P k of
        Some err \<Rightarrow> Inl err
      | None \<Rightarrow> if k < 0 then Inl ValueError else Inr (replicate (nat k) (Finite 0)))"

subsection \<open>The cells, in float64\<close>

text \<open>
  The globals and the cells again, statement by statement as in the first model, with
  the operations above. In the cells "Initialization" and "Number of samples" the
  divisions are Python's; \<^verbatim>\<open>math.floor\<close> comes before \<^verbatim>\<open>np.arange\<close>. In the loop,
  \<^verbatim>\<open>Ts/tau\<close> and \<^verbatim>\<open>1 - Ts/tau\<close> are Python's (both operands are Python floats), every
  other operation has a numpy scalar as an operand and is numpy's.
\<close>

record globals64 =
  Ts64 :: f64
  n_samples64 :: int
  t64 :: "f64 list"
  m64 :: "f64 list"
  m_cont64 :: "f64 list"
  y_open_loop64 :: "f64 list"
  y64 :: "f64 list"
  y_sp64 :: "f64 list"
  e64 :: "f64 list"
  int_e64 :: "f64 list"
  diff_e64 :: "f64 list"

definition initialization64 :: "platform \<Rightarrow> config \<Rightarrow> globals64 \<Rightarrow> py_error + globals64" where
  "initialization64 P c g =
     and_then (py_truediv (rnd P) (Finite 1) (lit P (Fs c))) (\<lambda>v. Inr (g\<lparr>Ts64 := v\<rparr>))"

definition number_of_samples64 :: "platform \<Rightarrow> config \<Rightarrow> globals64 \<Rightarrow> py_error + globals64" where
  "number_of_samples64 P c g =
     and_then (py_truediv (rnd P) (lit P (Tf c)) (Ts64 g)) (\<lambda>q.
     and_then (math_floor q) (\<lambda>n.
     and_then (arange P (lit P (Ti c)) (lit P (Tf c)) (Ts64 g)) (\<lambda>ts.
       Inr (g\<lparr>n_samples64 := n, t64 := ts\<rparr>))))"

definition step_response64 :: "platform \<Rightarrow> globals64 \<Rightarrow> py_error + globals64" where
  "step_response64 P g =
     and_then (np_ones64 P (n_samples64 g + 1)) (\<lambda>a1.
     and_then (np_zeros64 P (n_samples64 g + 1)) (\<lambda>a2.
     and_then (np_zeros64 P (n_samples64 g + 1)) (\<lambda>a3.
     and_then (np_zeros64 P (n_samples64 g + 1)) (\<lambda>a4.
     and_then (np_ones64 P (n_samples64 g + 1)) (\<lambda>a5.
     and_then (np_zeros64 P (n_samples64 g + 1)) (\<lambda>a6.
     and_then (np_zeros64 P (n_samples64 g + 1)) (\<lambda>a7.
     and_then (np_zeros64 P (n_samples64 g + 1)) (\<lambda>a8.
       Inr (g\<lparr>m64 := a1, m_cont64 := a2, y_open_loop64 := a3, y64 := a4,
              y_sp64 := map (fmul (rnd P) (Finite 2)) a5, e64 := a6, int_e64 := a7,
              diff_e64 := a8\<rparr>)))))))))"

definition set_y_open_loop64 :: "platform \<Rightarrow> config \<Rightarrow> nat \<Rightarrow> globals64 \<Rightarrow> py_error + globals64" where
  "set_y_open_loop64 P c i g =
     and_then (py_truediv (rnd P) (Ts64 g) (lit P (tau c))) (\<lambda>a.
       if \<not> (i < length (y_open_loop64 g) \<and> i < length (m64 g) \<and>
              i + 1 < length (y_open_loop64 g))
         then Inl IndexError
       else Inr (g\<lparr>y_open_loop64 := (y_open_loop64 g)
               [i + 1 := fadd (rnd P)
                  (fmul (rnd P) (fsub (rnd P) (Finite 1) a) (y_open_loop64 g ! i))
                  (fmul (rnd P) a (m64 g ! i))]\<rparr>))"

definition set_y64 :: "platform \<Rightarrow> config \<Rightarrow> nat \<Rightarrow> globals64 \<Rightarrow> py_error + globals64" where
  "set_y64 P c i g =
     and_then (py_truediv (rnd P) (Ts64 g) (lit P (tau c))) (\<lambda>a.
       if \<not> (i < length (y64 g) \<and> i < length (m_cont64 g) \<and> i + 1 < length (y64 g))
         then Inl IndexError
       else Inr (g\<lparr>y64 := (y64 g)
               [i + 1 := fadd (rnd P)
                  (fmul (rnd P) (fsub (rnd P) (Finite 1) a) (y64 g ! i))
                  (fmul (rnd P) a (m_cont64 g ! i))]\<rparr>))"

definition set_e64 :: "platform \<Rightarrow> nat \<Rightarrow> globals64 \<Rightarrow> py_error + globals64" where
  "set_e64 P i g =
     (if \<not> (i + 1 < length (y_sp64 g) \<and> i + 1 < length (y64 g) \<and> i + 1 < length (e64 g))
        then Inl IndexError
      else Inr (g\<lparr>e64 := (e64 g)
              [i + 1 := fsub (rnd P) (y_sp64 g ! (i + 1)) (y64 g ! (i + 1))]\<rparr>))"

definition set_int_e64 :: "platform \<Rightarrow> nat \<Rightarrow> globals64 \<Rightarrow> py_error + globals64" where
  "set_int_e64 P i g =
     (if \<not> (i < length (int_e64 g) \<and> i + 1 < length (e64 g) \<and> i + 1 < length (int_e64 g))
        then Inl IndexError
      else Inr (g\<lparr>int_e64 := (int_e64 g)
              [i + 1 := fadd (rnd P) (int_e64 g ! i)
                  (fmul (rnd P) (Ts64 g) (e64 g ! (i + 1)))]\<rparr>))"

definition set_diff_e64 :: "platform \<Rightarrow> nat \<Rightarrow> globals64 \<Rightarrow> py_error + globals64" where
  "set_diff_e64 P i g =
     (if \<not> (i + 1 < length (e64 g) \<and> i < length (e64 g) \<and> i + 1 < length (diff_e64 g))
        then Inl IndexError
      else Inr (g\<lparr>diff_e64 := (diff_e64 g)
              [i + 1 := fdiv (rnd P) (fsub (rnd P) (e64 g ! (i + 1)) (e64 g ! i)) (Ts64 g)]\<rparr>))"

definition set_m_cont64 :: "platform \<Rightarrow> config \<Rightarrow> nat \<Rightarrow> globals64 \<Rightarrow> py_error + globals64" where
  "set_m_cont64 P c i g =
     (if \<not> (i + 1 < length (e64 g) \<and> i + 1 < length (int_e64 g) \<and>
             i + 1 < length (diff_e64 g) \<and> i + 1 < length (m_cont64 g))
        then Inl IndexError
      else Inr (g\<lparr>m_cont64 := (m_cont64 g)
              [i + 1 := fadd (rnd P)
                 (fadd (rnd P) (fmul (rnd P) (lit P (Kp c)) (e64 g ! (i + 1)))
                               (fmul (rnd P) (lit P (Ki c)) (int_e64 g ! (i + 1))))
                 (fmul (rnd P) (lit P (Kd c)) (diff_e64 g ! (i + 1)))]\<rparr>))"

definition loop_body64 :: "platform \<Rightarrow> config \<Rightarrow> nat \<Rightarrow> globals64 \<Rightarrow> py_error + globals64" where
  "loop_body64 P c i g =
     and_then (set_y_open_loop64 P c i g) (\<lambda>g1.
     and_then (set_y64 P c i g1) (\<lambda>g2.
     and_then (set_e64 P i g2) (\<lambda>g3.
     and_then (set_int_e64 P i g3) (\<lambda>g4.
     and_then (set_diff_e64 P i g4) (\<lambda>g5.
       set_m_cont64 P c i g5)))))"

definition simulation64 :: "platform \<Rightarrow> config \<Rightarrow> globals64 \<Rightarrow> py_error + globals64" where
  "simulation64 P c g = for_loop (loop_body64 P c) [0 ..< nat (n_samples64 g)] g"

definition run_all64 :: "platform \<Rightarrow> config \<Rightarrow> globals64 \<Rightarrow> py_error + globals64" where
  "run_all64 P c g0 =
     and_then (initialization64 P c g0) (\<lambda>g1.
     and_then (number_of_samples64 P c g1) (\<lambda>g2.
     and_then (step_response64 P g2) (\<lambda>g3.
       simulation64 P c g3)))"

subsection \<open>The rounding of IEEE 754 binary64\<close>

text \<open>
  Round to nearest, ties to even. \<open>binade x\<close> is the exponent of \<open>x\<close>, found by search
  from the smallest normal exponent \<open>-1022\<close> (which the subnormal numbers share) up to the
  largest, 1023; \<open>ulp x\<close> is the distance between neighbouring floats there, with 52
  fraction bits; \<open>nearest x\<close> is the multiple of \<open>ulp x\<close> nearest to \<open>x\<close>. A result whose
  nearest value reaches \<open>2^1024\<close> overflows.
\<close>

definition round_even :: "real \<Rightarrow> int" where
  "round_even x =
     (let f = \<lfloor>x\<rfloor>; d = x - of_int f
      in if d < 1 / 2 then f else if 1 / 2 < d then f + 1 else if even f then f else f + 1)"

fun binade_from :: "nat \<Rightarrow> int \<Rightarrow> real \<Rightarrow> int" where
  "binade_from 0 ex x = ex"
| "binade_from (Suc k) ex x = (if x < 2 powi (ex + 1) then ex else binade_from k (ex + 1) x)"

definition binade :: "real \<Rightarrow> int" where
  "binade x = binade_from 2045 (- 1022) \<bar>x\<bar>"

definition ulp :: "real \<Rightarrow> real" where
  "ulp x = 2 powi (binade x - 52)"

definition nearest :: "real \<Rightarrow> real" where
  "nearest x = of_int (round_even (x / ulp x)) * ulp x"

definition overflow_threshold :: real where
  "overflow_threshold = 2 ^ 1024"

definition binary64 :: "real \<Rightarrow> f64" where
  "binary64 x =
     (let v = nearest x
      in if overflow_threshold \<le> v then PInf
         else if v \<le> - overflow_threshold then NInf
         else Finite v)"

text \<open>
  \<^verbatim>\<open>np.arange(start, stop, step)\<close> on floats: numpy divides \<open>stop - start\<close> by
  \<open>step\<close> as Python does, takes the ceiling of the quotient as the length (refusing NaN,
  an infinity and a length beyond the 64-bit index type), allocates, and fills the array
  with \<open>start\<close>, \<open>start + step\<close> and then \<open>start + i * delta\<close>, where \<open>delta\<close> is the
  difference of the first two entries.
\<close>

definition np_arange64 ::
  "(real \<Rightarrow> f64) \<Rightarrow> (int \<Rightarrow> py_error option) \<Rightarrow> f64 \<Rightarrow> f64 \<Rightarrow> f64 \<Rightarrow> py_error + f64 list" where
  "np_arange64 r alloc start stop step =
     and_then (py_truediv r (fsub r stop start) step) (\<lambda>q.
       case q of
         NaN \<Rightarrow> Inl ValueError
       | PInf \<Rightarrow> Inl OverflowError
       | NInf \<Rightarrow> Inl OverflowError
       | Finite u \<Rightarrow>
           if u < - (2 ^ 63) \<or> 2 ^ 63 < u then Inl OverflowError
           else if \<lceil>u\<rceil> \<le> 0 then Inr []
           else (case alloc \<lceil>u\<rceil> of
                   Some err \<Rightarrow> Inl err
                 | None \<Rightarrow>
                     Inr (map (\<lambda>i. if i = 0 then start
                                    else if i = 1 then fadd r start step
                                    else fadd r start
                                           (fmul r (r (real i)) (fsub r (fadd r start step) start)))
                            [0 ..< nat \<lceil>u\<rceil>])))"

text \<open>
  The platform of the notebook: IEEE 754 rounding, and memory for arrays of up to
  \<open>max_len\<close> entries.
\<close>

definition float64_platform :: "nat \<Rightarrow> platform" where
  "float64_platform max_len =
     \<lparr>rnd = binary64,
      alloc_error = (\<lambda>k. if int max_len < k then Some MemoryError else None),
      arange = np_arange64 binary64 (\<lambda>k. if int max_len < k then Some MemoryError else None)\<rparr>"

subsection \<open>What the float64 theorems speak about\<close>

text \<open>All eight arrays of the step-response cell have \<open>N\<close> entries.\<close>

definition sized64 :: "nat \<Rightarrow> globals64 \<Rightarrow> bool" where
  "sized64 N g \<longleftrightarrow>
     length (m64 g) = N \<and> length (m_cont64 g) = N \<and> length (y_open_loop64 g) = N \<and>
     length (y64 g) = N \<and> length (y_sp64 g) = N \<and> length (e64 g) = N \<and>
     length (int_e64 g) = N \<and> length (diff_e64 g) = N"

text \<open>
  What the first two cells compute from a configuration: the sampling period, the quotient
  \<^verbatim>\<open>Tf/Ts\<close> and, when that is finite, \<^verbatim>\<open>n_samples\<close>.
\<close>

definition Ts_of :: "platform \<Rightarrow> config \<Rightarrow> f64" where
  "Ts_of P c = fdiv (rnd P) (Finite 1) (lit P (Fs c))"

definition quotient_of :: "platform \<Rightarrow> config \<Rightarrow> f64" where
  "quotient_of P c = fdiv (rnd P) (lit P (Tf c)) (Ts_of P c)"

definition n_of :: "platform \<Rightarrow> config \<Rightarrow> int" where
  "n_of P c = (case quotient_of P c of Finite u \<Rightarrow> \<lfloor>u\<rfloor> | _ \<Rightarrow> 0)"

text \<open>
  The right-hand side of the loop's first assignment, and its coefficient \<^verbatim>\<open>1 - Ts/tau\<close>.
\<close>

definition open_loop_step :: "platform \<Rightarrow> config \<Rightarrow> f64 \<Rightarrow> f64 \<Rightarrow> f64 \<Rightarrow> f64" where
  "open_loop_step P c ts y_i m_i =
     fadd (rnd P)
       (fmul (rnd P) (fsub (rnd P) (Finite 1) (fdiv (rnd P) ts (lit P (tau c)))) y_i)
       (fmul (rnd P) (fdiv (rnd P) ts (lit P (tau c))) m_i)"

definition coefficient :: "platform \<Rightarrow> config \<Rightarrow> f64" where
  "coefficient P c = fsub (rnd P) (Finite 1) (fdiv (rnd P) (Ts_of P c) (lit P (tau c)))"


text \<open>
  The configurations the specification calls valid, \<open>Ts > 0\<close>, \<open>tau > 0\<close>, \<open>n \<ge> 1\<close>, read on
  the floats the cells compute; and the platforms with memory enough for the arrays of a
  configuration.
\<close>

definition valid_config64 :: "platform \<Rightarrow> config \<Rightarrow> bool" where
  "valid_config64 P c \<longleftrightarrow>
     \<not> is_zero (lit P (Fs c)) \<and> fless (Finite 0) (Ts_of P c) \<and>
     fless (Finite 0) (lit P (tau c)) \<and> is_finite (quotient_of P c) \<and> 1 \<le> n_of P c"

definition enough_memory :: "platform \<Rightarrow> config \<Rightarrow> bool" where
  "enough_memory P c \<longleftrightarrow>
     alloc_error P (n_of P c + 1) = None \<and>
     (\<exists>ts. arange P (lit P (Ti c)) (lit P (Tf c)) (Ts_of P c) = Inr ts)"



definition accurate :: "platform \<Rightarrow> real \<Rightarrow> bool" where
  "accurate P u \<longleftrightarrow> (\<forall>x. \<bar>x\<bar> < 4 \<longrightarrow> (\<exists>v. rnd P x = Finite v \<and> \<bar>v - x\<bar> \<le> u))"

text \<open>
  Four more configurations for closed examples: \<open>Ts / tau = 1/3\<close>, which no float
  represents; a final time that is a whole multiple of the exact sampling period;
  \<open>Tf = 0.3333333333333333\<close> (the float nearest to \<open>1/3\<close>) with \<open>Fs = 3\<close> and \<open>tau = 0\<close>; and a
  quotient \<open>Tf / Ts\<close> beyond the largest float. Then the kernel state before any cell ran.
\<close>

definition third_config :: config where
  "third_config = \<lparr>Fs = 1, Tf = 2, Ti = 0, tau = 3, Kp = 5, Ki = 5, Kd = 1 / 10\<rparr>"

definition whole_multiple_config :: config where
  "whole_multiple_config = \<lparr>Fs = 49, Tf = 1, Ti = 0, tau = 2, Kp = 5, Ki = 5, Kd = 1 / 10\<rparr>"

definition rounded_quotient_config :: config where
  "rounded_quotient_config =
     \<lparr>Fs = 3, Tf = 6004799503160661 / 2 ^ 54, Ti = 0, tau = 0, Kp = 5, Ki = 5, Kd = 1 / 10\<rparr>"

definition overflow_config :: config where
  "overflow_config = \<lparr>Fs = 2 ^ 30, Tf = 2 ^ 1000, Ti = 0, tau = 2, Kp = 5, Ki = 5, Kd = 1 / 10\<rparr>"

definition blank64 :: globals64 where
  "blank64 = \<lparr>Ts64 = Finite 0, n_samples64 = 0, t64 = [], m64 = [], m_cont64 = [],
              y_open_loop64 = [], y64 = [], y_sp64 = [], e64 = [], int_e64 = [],
              diff_e64 = []\<rparr>"

section \<open>The loop body and the loop\<close>

lemma and_then_Inr [simp]: "and_then (Inr v) f = f v"
  by (simp add: and_then_def)

lemma and_then_Inl [simp]: "and_then (Inl err) f = Inl err"
  by (simp add: and_then_def)

lemmas stmt_defs = set_y_open_loop_def set_y_def set_e_def set_int_e_def set_diff_e_def
  set_m_cont_def

text \<open>
  One pass of the loop body: it succeeds when \<open>tau \<noteq> 0\<close> and the arrays reach index
  \<open>i + 1\<close>; it keeps the sizes and everything it only reads, changes the six arrays at index
  \<open>i + 1\<close> alone, and leaves the six equations of pass \<open>i\<close> true.
\<close>

lemma loop_body_Inr:
  assumes "tau c \<noteq> 0" "sized N g" "i + 1 < N"
  shows "\<exists>r. loop_body c i g = Inr r"
  using assms by (simp add: loop_body_def stmt_defs sized_def)

lemma loop_body_sized:
  assumes "loop_body c i g = Inr r" "sized N g"
  shows "sized N r"
  using assms
  by (auto simp add: loop_body_def stmt_defs sized_def and_then_def split: if_splits sum.splits)

lemma loop_body_same_inputs:
  assumes "loop_body c i g = Inr r"
  shows "same_inputs g r"
  using assms
  by (auto simp add: loop_body_def stmt_defs same_inputs_def and_then_def split: if_splits sum.splits)

lemma loop_body_same_at:
  assumes "loop_body c i g = Inr r" "j \<noteq> i + 1"
  shows "same_at j g r"
  using assms
  by (auto simp add: loop_body_def stmt_defs same_at_def and_then_def split: if_splits sum.splits)

lemma loop_body_recurrence:
  assumes "loop_body c i g = Inr r"
  shows "recurrence c r i"
  using assms
  by (auto simp add: loop_body_def stmt_defs recurrence_def and_then_def split: if_splits sum.splits)

lemma for_loop_append:
  "for_loop body (xs @ ys) s = and_then (for_loop body xs s) (for_loop body ys)"
  by (induction xs arbitrary: s) (auto simp add: and_then_def split: sum.splits)

lemma same_inputs_refl: "same_inputs g g"
  by (simp add: same_inputs_def)

lemma same_inputs_trans: "same_inputs g r \<Longrightarrow> same_inputs r r' \<Longrightarrow> same_inputs g r'"
  by (simp add: same_inputs_def)

lemma same_at_refl: "same_at j g g"
  by (simp add: same_at_def)

lemma same_at_trans: "same_at j g r \<Longrightarrow> same_at j r r' \<Longrightarrow> same_at j g r'"
  by (simp add: same_at_def)

lemma recurrence_cong:
  assumes "recurrence c r i" "same_inputs r r'" "same_at i r r'" "same_at (i + 1) r r'"
  shows "recurrence c r' i"
  using assms by (simp add: recurrence_def same_inputs_def same_at_def)

text \<open>
  The invariant of the loop after \<open>k\<close> passes: the equations of all passes before \<open>k\<close>
  hold, and the entries at index 0 and beyond \<open>k\<close> are still those of the start.
\<close>

lemma for_loop_upt:
  assumes "tau c \<noteq> 0" "sized N g" "k < N"
  shows "\<exists>r. for_loop (loop_body c) [0 ..< k] g = Inr r \<and> sized N r \<and> same_inputs g r \<and>
           (\<forall>j. j = 0 \<or> k < j \<longrightarrow> same_at j g r) \<and> (\<forall>i<k. recurrence c r i)"
  using assms(3)
proof (induction k)
  case 0
  show ?case
    using assms(2) by (simp add: same_inputs_refl same_at_refl)
next
  case (Suc k)
  then obtain r where r: "for_loop (loop_body c) [0 ..< k] g = Inr r" "sized N r"
      "same_inputs g r" "\<forall>j. j = 0 \<or> k < j \<longrightarrow> same_at j g r" "\<forall>i<k. recurrence c r i"
    by auto
  from loop_body_Inr [OF assms(1) r(2), of k] Suc.prems
  obtain r' where r': "loop_body c k r = Inr r'"
    by auto
  have run: "for_loop (loop_body c) [0 ..< Suc k] g = Inr r'"
    by (simp add: for_loop_append r(1) r')
  have frame: "\<forall>j. j = 0 \<or> Suc k < j \<longrightarrow> same_at j g r'"
  proof (intro allI impI)
    fix j assume j: "j = 0 \<or> Suc k < j"
    then have "same_at j g r" using r(4) by auto
    moreover have "same_at j r r'" using loop_body_same_at [OF r'] j by auto
    ultimately show "same_at j g r'" by (rule same_at_trans)
  qed
  have eqs: "\<forall>i<Suc k. recurrence c r' i"
  proof (intro allI impI)
    fix i assume i: "i < Suc k"
    show "recurrence c r' i"
    proof (cases "i = k")
      case True
      then show ?thesis using loop_body_recurrence [OF r'] by simp
    next
      case False
      with i have "i < k" by simp
      then have "recurrence c r i" using r(5) by simp
      moreover have "same_at i r r'" "same_at (i + 1) r r'"
        using loop_body_same_at [OF r'] \<open>i < k\<close> by auto
      ultimately show ?thesis
        using loop_body_same_inputs [OF r'] by (blast intro: recurrence_cong)
    qed
  qed
  show ?case
    using run loop_body_sized [OF r' r(2)] same_inputs_trans [OF r(3) loop_body_same_inputs [OF r']]
      frame eqs by blast
qed

section \<open>The cells in sequence\<close>

lemma step_response_eq:
  "step_response g =
     (if n_samples g + 1 < 0 then Inl ValueError
      else Inr (g\<lparr>m := replicate (nat (n_samples g + 1)) 1,
                  m_cont := replicate (nat (n_samples g + 1)) 0,
                  y_open_loop := replicate (nat (n_samples g + 1)) 0,
                  y := replicate (nat (n_samples g + 1)) 0,
                  y_sp := replicate (nat (n_samples g + 1)) 2,
                  e := replicate (nat (n_samples g + 1)) 0,
                  int_e := replicate (nat (n_samples g + 1)) 0,
                  diff_e := replicate (nat (n_samples g + 1)) 0\<rparr>))"
  by (simp add: step_response_def np_ones_def np_zeros_def)

lemma simulation_spec:
  assumes "tau c \<noteq> 0" "sized (nat (n_samples g) + 1) g"
  shows "\<exists>r. simulation c g = Inr r \<and> sized (nat (n_samples g) + 1) r \<and> same_inputs g r \<and>
           same_at 0 g r \<and> (\<forall>i < nat (n_samples g). recurrence c r i)"
  using for_loop_upt [OF assms, of "nat (n_samples g)"] by (auto simp add: simulation_def)

lemma run_all_unfold:
  "run_all c g0 =
     (if Fs c = 0 then Inl ZeroDivisionError
      else if \<lfloor>Tf c / (1 / Fs c)\<rfloor> + 1 < 0 then Inl ValueError
      else simulation c
        \<lparr>Ts = 1 / Fs c, n_samples = \<lfloor>Tf c / (1 / Fs c)\<rfloor>,
         t = np_arange (Ti c) (Tf c) (1 / Fs c),
         m = replicate (nat (\<lfloor>Tf c / (1 / Fs c)\<rfloor> + 1)) 1,
         m_cont = replicate (nat (\<lfloor>Tf c / (1 / Fs c)\<rfloor> + 1)) 0,
         y_open_loop = replicate (nat (\<lfloor>Tf c / (1 / Fs c)\<rfloor> + 1)) 0,
         y = replicate (nat (\<lfloor>Tf c / (1 / Fs c)\<rfloor> + 1)) 0,
         y_sp = replicate (nat (\<lfloor>Tf c / (1 / Fs c)\<rfloor> + 1)) 2,
         e = replicate (nat (\<lfloor>Tf c / (1 / Fs c)\<rfloor> + 1)) 0,
         int_e = replicate (nat (\<lfloor>Tf c / (1 / Fs c)\<rfloor> + 1)) 0,
         diff_e = replicate (nat (\<lfloor>Tf c / (1 / Fs c)\<rfloor> + 1)) 0\<rparr>)"
  by (cases g0)
    (simp add: run_all_def initialization_def number_of_samples_def step_response_eq)

lemma run_all_spec:
  assumes "Fs c \<noteq> 0" "tau c \<noteq> 0" "0 \<le> \<lfloor>Tf c / (1 / Fs c)\<rfloor>"
  shows "\<exists>r. run_all c g0 = Inr r \<and> Ts r = 1 / Fs c \<and> n_samples r = \<lfloor>Tf c / Ts r\<rfloor> \<and>
           t r = np_arange (Ti c) (Tf c) (Ts r) \<and>
           m r = replicate (nat (n_samples r) + 1) 1 \<and>
           y_sp r = replicate (nat (n_samples r) + 1) 2 \<and>
           sized (nat (n_samples r) + 1) r \<and>
           y_open_loop r ! 0 = 0 \<and> y r ! 0 = 0 \<and> e r ! 0 = 0 \<and> int_e r ! 0 = 0 \<and>
           diff_e r ! 0 = 0 \<and> m_cont r ! 0 = 0 \<and>
           (\<forall>i < nat (n_samples r). recurrence c r i)"
proof -
  define n where "n = \<lfloor>Tf c / (1 / Fs c)\<rfloor>"
  define N where "N = nat n + 1"
  define g2 where "g2 = g0\<lparr>Ts := 1 / Fs c, n_samples := n, t := np_arange (Ti c) (Tf c) (1 / Fs c)\<rparr>"
  define g3 where "g3 = g2\<lparr>m := replicate N 1, m_cont := replicate N 0,
      y_open_loop := replicate N 0, y := replicate N 0, y_sp := replicate N 2,
      e := replicate N 0, int_e := replicate N 0, diff_e := replicate N 0\<rparr>"
  have n0: "0 \<le> n" using assms(3) by (simp add: n_def)
  then have N: "nat (n + 1) = N" by (simp add: N_def nat_add_distrib)
  have n': "\<lfloor>Tf c * Fs c\<rfloor> = n" by (simp add: n_def)
  have run: "run_all c g0 = simulation c g3"
    using assms(1) n0 N
    by (simp add: run_all_def initialization_def number_of_samples_def step_response_eq
        g3_def g2_def n')
  have sz: "sized (nat (n_samples g3) + 1) g3"
    by (simp add: sized_def g3_def g2_def N_def)
  from simulation_spec [OF assms(2) sz] obtain r where r: "simulation c g3 = Inr r"
      "sized (nat (n_samples g3) + 1) r" "same_inputs g3 r" "same_at 0 g3 r"
      "\<forall>i < nat (n_samples g3). recurrence c r i"
    by blast
  have in3: "Ts g3 = 1 / Fs c" "n_samples g3 = n" "t g3 = np_arange (Ti c) (Tf c) (1 / Fs c)"
      "m g3 = replicate N 1" "y_sp g3 = replicate N 2"
    by (simp_all add: g3_def g2_def)
  have z3: "y_open_loop g3 ! 0 = 0" "y g3 ! 0 = 0" "e g3 ! 0 = 0" "int_e g3 ! 0 = 0"
      "diff_e g3 ! 0 = 0" "m_cont g3 ! 0 = 0"
    by (simp_all add: g3_def g2_def N_def)
  show ?thesis
    using run r in3 z3 by (simp add: same_inputs_def same_at_def n' N_def)
qed

lemma valid_configD:
  assumes "valid_config c"
  shows "Fs c \<noteq> 0" "tau c \<noteq> 0" "0 \<le> \<lfloor>Tf c / (1 / Fs c)\<rfloor>"
  using assms by (auto simp add: valid_config_def)

lemma valid_notebook_config: "valid_config notebook_config"
  by (simp add: valid_config_def notebook_config_def)

lemma nth_ones:
  assumes "xs = replicate N v" "i < N"
  shows "xs ! i = v"
  using assms by simp

text \<open>
  A run small enough to follow by hand: \<open>Fs = 1\<close>, \<open>Tf = 2\<close>, so \<open>Ts = 1\<close> and two loop passes.
  The divergence scenario after it has \<open>Ts = 3\<close>, \<open>tau = 1\<close> and four passes.
\<close>

lemma run_all_example:
  "run_all small_config blank =
     Inr \<lparr>Ts = 1, n_samples = 2, t = [0, 1], m = [1, 1, 1],
          m_cont = [0, 101 / 5, - (7201 / 100)],
          y_open_loop = [0, 1 / 2, 3 / 4], y = [0, 0, 101 / 10],
          y_sp = [2, 2, 2], e = [0, 2, - (81 / 10)],
          int_e = [0, 2, - (61 / 10)], diff_e = [0, 2, - (101 / 10)]\<rparr>"
  by (simp add: small_config_def run_all_def initialization_def number_of_samples_def
      step_response_eq simulation_def blank_def np_arange_def loop_body_def stmt_defs upt_rec
      numeral_2_eq_2 numeral_3_eq_3)

lemma run_all_unstable_config:
  "run_all unstable_config blank =
     Inr \<lparr>Ts = 3, n_samples = 4, t = [0, 3, 6, 9], m = [1, 1, 1, 1, 1],
          m_cont = [0, 601 / 15, - (350701 / 150), 215446831 / 1500,
                    - (132239929561 / 15000)],
          y_open_loop = [0, 3, - 3, 9, - 15],
          y = [0, 0, 601 / 5, - (362721 / 50), 222701251 / 500],
          y_sp = [2, 2, 2, 2, 2],
          e = [0, 2, - (591 / 5), 362821 / 50, - (222700251 / 500)],
          int_e = [0, 6, - (1743 / 5), 1071033 / 50, - (657390423 / 500)],
          diff_e = [0, 2 / 3, - (601 / 15), 368731 / 150, - (226328461 / 1500)]\<rparr>"
  by (simp add: unstable_config_def run_all_def initialization_def number_of_samples_def
      step_response_eq simulation_def blank_def np_arange_def loop_body_def stmt_defs upt_rec
      eval_nat_numeral)

section \<open>The open-loop output in closed form\<close>

lemma open_loop_closed_form:
  assumes "tau c \<noteq> 0" "y_open_loop r ! 0 = 0" "\<forall>i<n. m r ! i = 1" "\<forall>i<n. recurrence c r i"
    and "k \<le> n"
  shows "y_open_loop r ! k = 1 - (1 - Ts r / tau c) ^ k"
  using assms(5)
proof (induction k)
  case 0
  show ?case by (simp add: assms(2))
next
  case (Suc k)
  then have k: "k < n" and ih: "y_open_loop r ! k = 1 - (1 - Ts r / tau c) ^ k"
    by simp_all
  from assms(4) k have "y_open_loop r ! (k + 1) =
      (1 - (Ts r / tau c)) * y_open_loop r ! k + (Ts r / tau c) * m r ! k"
    by (simp add: recurrence_def)
  also have "\<dots> = (1 - (Ts r / tau c)) * (1 - (1 - Ts r / tau c) ^ k) + Ts r / tau c"
    using assms(3) k by (simp add: ih)
  also have "\<dots> = 1 - (1 - Ts r / tau c) ^ Suc k"
    by (simp add: algebra_simps)
  finally show ?case by simp
qed

lemma run_all_open_loop:
  assumes "valid_config c"
  shows "\<exists>r. run_all c g0 = Inr r \<and> Ts r = 1 / Fs c \<and> n_samples r = \<lfloor>Tf c / Ts r\<rfloor> \<and>
           sized (nat (n_samples r) + 1) r \<and>
           (\<forall>k \<le> nat (n_samples r). y_open_loop r ! k = 1 - (1 - Ts r / tau c) ^ k)"
proof -
  from run_all_spec [OF valid_configD [OF assms], of g0]
  obtain r where r: "run_all c g0 = Inr r" "Ts r = 1 / Fs c" "n_samples r = \<lfloor>Tf c / Ts r\<rfloor>"
      "m r = replicate (nat (n_samples r) + 1) 1" "sized (nat (n_samples r) + 1) r"
      "y_open_loop r ! 0 = 0" "\<forall>i < nat (n_samples r). recurrence c r i"
    by blast
  have ones: "\<forall>i < nat (n_samples r). m r ! i = 1"
    by (auto intro!: nth_ones [OF r(4)])
  have "y_open_loop r ! k = 1 - (1 - Ts r / tau c) ^ k" if "k \<le> nat (n_samples r)" for k
    using valid_configD(2) [OF assms] r(6) ones r(7) that by (rule open_loop_closed_form)
  with r show ?thesis
    by blast
qed

lemma geometric_decay:
  fixes x :: real
  assumes "0 < x" "x < 1"
  shows "0 \<le> (1 - x) ^ n" "(1 - x) ^ n \<le> exp (- (real n * x))"
proof -
  show "0 \<le> (1 - x) ^ n"
    using assms by simp
  have "1 - x \<le> exp (- x)"
    using exp_ge_add_one_self [of "- x"] by simp
  then have "(1 - x) ^ n \<le> exp (- x) ^ n"
    using assms by (intro power_mono) simp_all
  also have "\<dots> = exp (- (real n * x))"
    by (simp add: exp_of_nat_mult [symmetric])
  finally show "(1 - x) ^ n \<le> exp (- (real n * x))" .
qed


section \<open>Two executions side by side\<close>

lemma recurrence_determines:
  assumes "recurrence c r j" "recurrence c r' j" "Ts r' = Ts r" "same_at j r r'"
    and "m r' ! j = m r ! j" "y_sp r' ! (j + 1) = y_sp r ! (j + 1)"
  shows "same_at (j + 1) r r'"
  using assms by (simp add: recurrence_def same_at_def)

lemma agree_below:
  assumes "\<forall>i<n. recurrence c r i" "\<forall>i<n'. recurrence c r' i"
    and "Ts r' = Ts r" "same_at 0 r r'"
    and "k \<le> n + 1" "k \<le> n' + 1"
    and "\<forall>j<k. m r' ! j = m r ! j \<and> y_sp r' ! j = y_sp r ! j"
    and "j < k"
  shows "same_at j r r'"
  using assms(8)
proof (induction j)
  case 0
  show ?case by (rule assms(4))
next
  case (Suc j)
  then have j: "j < k" "j + 1 < k"
    by simp_all
  then have "j < n" "j < n'"
    using assms(5,6) by simp_all
  then have "recurrence c r j" "recurrence c r' j"
    using assms(1,2) by simp_all
  moreover have "m r' ! j = m r ! j" "y_sp r' ! (j + 1) = y_sp r ! (j + 1)"
    using assms(7) j by simp_all
  ultimately have "same_at (j + 1) r r'"
    using assms(3) Suc.IH [OF j(1)] by (intro recurrence_determines)
  then show ?case by simp
qed

lemma recurrence_same_parameters:
  assumes "tau c' = tau c" "Kp c' = Kp c" "Ki c' = Ki c" "Kd c' = Kd c"
  shows "recurrence c' r i = recurrence c r i"
  by (simp add: recurrence_def assms)

lemma open_loop_determined:
  assumes "\<forall>i<n. recurrence c r i" "\<forall>i<n. recurrence c' r' i"
    and "tau c' = tau c" "Ts r' = Ts r" "m r' = m r"
    and "y_open_loop r' ! 0 = y_open_loop r ! 0" "j \<le> n"
  shows "y_open_loop r' ! j = y_open_loop r ! j"
  using assms(7)
proof (induction j)
  case 0
  show ?case by (rule assms(6))
next
  case (Suc j)
  then have "j < n" and ih: "y_open_loop r' ! j = y_open_loop r ! j"
    by simp_all
  then have "recurrence c r j" "recurrence c' r' j"
    using assms(1,2) by simp_all
  then show ?case
    using ih assms(3,4,5) by (simp add: recurrence_def)
qed

section \<open>The float64 loop and cells in sequence\<close>

text \<open>
  As for the first model: a loop pass on arrays of equal length succeeds unless \<open>tau\<close> is
  zero, leaves what it only reads unchanged, and assigns to index \<open>i + 1\<close> of the open-loop
  output the rounded right-hand side. Then the cells one by one, which runs fail, and
  what a run of a valid configuration yields.
\<close>

lemmas stmt64_defs = set_y_open_loop64_def set_y64_def set_e64_def set_int_e64_def
  set_diff_e64_def set_m_cont64_def

lemma loop_body64_Inr:
  assumes "\<not> is_zero (lit P (tau c))" "sized64 N g" "i + 1 < N"
  shows "\<exists>r. loop_body64 P c i g = Inr r"
  using assms by (simp add: loop_body64_def stmt64_defs sized64_def py_truediv_def)

lemma loop_body64_frame:
  assumes "loop_body64 P c i g = Inr r"
  shows "Ts64 r = Ts64 g" "n_samples64 r = n_samples64 g" "t64 r = t64 g" "m64 r = m64 g"
    "y_sp64 r = y_sp64 g"
  using assms
  by (auto simp add: loop_body64_def stmt64_defs py_truediv_def and_then_def
      split: if_splits sum.splits)

lemma loop_body64_sized:
  assumes "loop_body64 P c i g = Inr r" "sized64 N g"
  shows "sized64 N r"
  using assms
  by (auto simp add: loop_body64_def stmt64_defs sized64_def py_truediv_def and_then_def
      split: if_splits sum.splits)

lemma loop_body64_open_loop:
  assumes "loop_body64 P c i g = Inr r"
  shows "y_open_loop64 r ! (i + 1) =
           open_loop_step P c (Ts64 g) (y_open_loop64 g ! i) (m64 g ! i)"
    and "j \<noteq> i + 1 \<Longrightarrow> y_open_loop64 r ! j = y_open_loop64 g ! j"
  using assms
  by (auto simp add: loop_body64_def stmt64_defs open_loop_step_def py_truediv_def and_then_def
      split: if_splits sum.splits)

lemma for_loop64_upt:
  assumes "\<not> is_zero (lit P (tau c))" "sized64 N g" "k < N"
  shows "\<exists>r. for_loop (loop_body64 P c) [0 ..< k] g = Inr r \<and> sized64 N r \<and>
           Ts64 r = Ts64 g \<and> n_samples64 r = n_samples64 g \<and> t64 r = t64 g \<and>
           m64 r = m64 g \<and>
           (\<forall>j. j = 0 \<or> k < j \<longrightarrow> y_open_loop64 r ! j = y_open_loop64 g ! j) \<and>
           (\<forall>i<k. y_open_loop64 r ! (i + 1) =
                    open_loop_step P c (Ts64 g) (y_open_loop64 r ! i) (m64 g ! i))"
  using assms(3)
proof (induction k)
  case 0
  show ?case
    using assms(2) by simp
next
  case (Suc k)
  then obtain r where r: "for_loop (loop_body64 P c) [0 ..< k] g = Inr r" "sized64 N r"
      "Ts64 r = Ts64 g" "n_samples64 r = n_samples64 g" "t64 r = t64 g" "m64 r = m64 g"
      "\<forall>j. j = 0 \<or> k < j \<longrightarrow> y_open_loop64 r ! j = y_open_loop64 g ! j"
      "\<forall>i<k. y_open_loop64 r ! (i + 1) =
                    open_loop_step P c (Ts64 g) (y_open_loop64 r ! i) (m64 g ! i)"
    by auto
  from loop_body64_Inr [OF assms(1) r(2), of k] Suc.prems
  obtain r' where r': "loop_body64 P c k r = Inr r'"
    by auto
  note fr = loop_body64_frame [OF r'] and op = loop_body64_open_loop [OF r']
  have run: "for_loop (loop_body64 P c) [0 ..< Suc k] g = Inr r'"
    by (simp add: for_loop_append r(1) r')
  have untouched: "\<forall>j. j = 0 \<or> Suc k < j \<longrightarrow> y_open_loop64 r' ! j = y_open_loop64 g ! j"
  proof (intro allI impI)
    fix j assume j: "j = 0 \<or> Suc k < j"
    then have "y_open_loop64 r' ! j = y_open_loop64 r ! j"
      by (intro op(2)) auto
    with r(7) j show "y_open_loop64 r' ! j = y_open_loop64 g ! j"
      by auto
  qed
  have eqs: "\<forall>i<Suc k. y_open_loop64 r' ! (i + 1) =
                    open_loop_step P c (Ts64 g) (y_open_loop64 r' ! i) (m64 g ! i)"
  proof (intro allI impI)
    fix i assume i: "i < Suc k"
    show "y_open_loop64 r' ! (i + 1) =
            open_loop_step P c (Ts64 g) (y_open_loop64 r' ! i) (m64 g ! i)"
    proof (cases "i = k")
      case True
      have "y_open_loop64 r' ! k = y_open_loop64 r ! k"
        by (intro op(2)) simp
      with op(1) True show ?thesis
        by (simp add: r(3) r(6))
    next
      case False
      with i have ik: "i < k" by simp
      then have "y_open_loop64 r' ! (i + 1) = y_open_loop64 r ! (i + 1)"
          "y_open_loop64 r' ! i = y_open_loop64 r ! i"
        by (auto intro!: op(2))
      with r(8) ik show ?thesis
        by simp
    qed
  qed
  show ?case
    using run loop_body64_sized [OF r' r(2)] fr r(3,4,5,6) untouched eqs by auto
qed

lemma simulation64_spec:
  assumes "\<not> is_zero (lit P (tau c))" "sized64 (nat (n_samples64 g) + 1) g"
  shows "\<exists>r. simulation64 P c g = Inr r \<and> sized64 (nat (n_samples64 g) + 1) r \<and>
           Ts64 r = Ts64 g \<and> n_samples64 r = n_samples64 g \<and> t64 r = t64 g \<and>
           m64 r = m64 g \<and> y_open_loop64 r ! 0 = y_open_loop64 g ! 0 \<and>
           (\<forall>i < nat (n_samples64 g). y_open_loop64 r ! (i + 1) =
                    open_loop_step P c (Ts64 g) (y_open_loop64 r ! i) (m64 g ! i))"
  using for_loop64_upt [OF assms, of "nat (n_samples64 g)"] by (auto simp add: simulation64_def)

lemma simulation64_no_pass:
  assumes "n_samples64 g \<le> 0"
  shows "simulation64 P c g = Inr g"
  using assms by (simp add: simulation64_def)

lemma simulation64_first_pass:
  assumes "1 \<le> n_samples64 g" "set_y_open_loop64 P c 0 g = Inl err"
  shows "simulation64 P c g = Inl err"
proof -
  from assms(1) have "[0 ..< nat (n_samples64 g)] = 0 # [1 ..< nat (n_samples64 g)]"
    by (simp add: upt_conv_Cons)
  then show ?thesis
    using assms(2) by (simp add: simulation64_def loop_body64_def)
qed

lemma step_response64_eq:
  "step_response64 P g =
     (case alloc_error P (n_samples64 g + 1) of
        Some err \<Rightarrow> Inl err
      | None \<Rightarrow>
        if n_samples64 g + 1 < 0 then Inl ValueError
        else Inr (g\<lparr>m64 := replicate (nat (n_samples64 g + 1)) (Finite 1),
                  m_cont64 := replicate (nat (n_samples64 g + 1)) (Finite 0),
                  y_open_loop64 := replicate (nat (n_samples64 g + 1)) (Finite 0),
                  y64 := replicate (nat (n_samples64 g + 1)) (Finite 0),
                  y_sp64 := replicate (nat (n_samples64 g + 1)) (fmul (rnd P) (Finite 2) (Finite 1)),
                  e64 := replicate (nat (n_samples64 g + 1)) (Finite 0),
                  int_e64 := replicate (nat (n_samples64 g + 1)) (Finite 0),
                  diff_e64 := replicate (nat (n_samples64 g + 1)) (Finite 0)\<rparr>))"
  by (simp add: step_response64_def np_ones64_def np_zeros64_def split: option.splits)

lemma simulation64_tau_0:
  assumes "is_zero (lit P (tau c))" "1 \<le> n_samples64 g"
  shows "set_y_open_loop64 P c 0 g = Inl ZeroDivisionError"
    and "simulation64 P c g = Inl ZeroDivisionError"
proof -
  show "set_y_open_loop64 P c 0 g = Inl ZeroDivisionError"
    using assms(1) by (simp add: set_y_open_loop64_def py_truediv_def)
  with assms(2) show "simulation64 P c g = Inl ZeroDivisionError"
    by (rule simulation64_first_pass)
qed

lemma step_response64_Inr:
  assumes "step_response64 P g = Inr g'"
  shows "Ts64 g' = Ts64 g" "n_samples64 g' = n_samples64 g" "t64 g' = t64 g"
    and "- 1 \<le> n_samples64 g" "alloc_error P (n_samples64 g + 1) = None"
    and "m64 g' = replicate (nat (n_samples64 g + 1)) (Finite 1)"
    and "y_open_loop64 g' = replicate (nat (n_samples64 g + 1)) (Finite 0)"
    and "sized64 (nat (n_samples64 g + 1)) g'"
  using assms by (auto simp add: step_response64_eq sized64_def split: if_splits option.splits)

lemma simulation64_succeeds:
  assumes "step_response64 P g = Inr g'"
    and "\<not> is_zero (lit P (tau c)) \<or> n_samples64 g < 1"
  shows "\<exists>r. simulation64 P c g' = Inr r \<and> sized64 (nat (n_samples64 g + 1)) r \<and>
           Ts64 r = Ts64 g \<and> n_samples64 r = n_samples64 g \<and> t64 r = t64 g \<and>
           m64 r = m64 g' \<and> y_open_loop64 r ! 0 = y_open_loop64 g' ! 0 \<and>
           (\<forall>i < nat (n_samples64 g). y_open_loop64 r ! (i + 1) =
                    open_loop_step P c (Ts64 g) (y_open_loop64 r ! i) (m64 g' ! i))"
proof (cases "n_samples64 g < 1")
  case True
  then have "simulation64 P c g' = Inr g'"
    using step_response64_Inr(2) [OF assms(1)] by (intro simulation64_no_pass) simp
  moreover have "nat (n_samples64 g) = 0"
    using True by simp
  ultimately show ?thesis
    using step_response64_Inr [OF assms(1)] by simp
next
  case False
  with assms(2) have tau: "\<not> is_zero (lit P (tau c))" and n: "0 \<le> n_samples64 g"
    by simp_all
  note a = step_response64_Inr [OF assms(1)]
  have "nat (n_samples64 g + 1) = nat (n_samples64 g') + 1"
    using n by (simp add: a(2) nat_add_distrib)
  then have "sized64 (nat (n_samples64 g') + 1) g'"
    using a(8) by simp
  from simulation64_spec [OF tau this] show ?thesis
    using n by (simp add: a(1,2,3) nat_add_distrib)
qed

lemma initialization64_eq:
  "initialization64 P c g =
     (if is_zero (lit P (Fs c)) then Inl ZeroDivisionError else Inr (g\<lparr>Ts64 := Ts_of P c\<rparr>))"
  by (simp add: initialization64_def py_truediv_def Ts_of_def)

lemma number_of_samples64_eq:
  assumes "Ts64 g = Ts_of P c"
  shows "number_of_samples64 P c g =
     (if is_zero (Ts_of P c) then Inl ZeroDivisionError
      else and_then (math_floor (quotient_of P c)) (\<lambda>n.
           and_then (arange P (lit P (Ti c)) (lit P (Tf c)) (Ts_of P c)) (\<lambda>ts.
             Inr (g\<lparr>n_samples64 := n, t64 := ts\<rparr>))))"
  by (simp add: number_of_samples64_def py_truediv_def quotient_of_def assms)

lemma math_floor_eq:
  "math_floor q = Inr n \<longleftrightarrow> is_finite q \<and> n = (case q of Finite u \<Rightarrow> \<lfloor>u\<rfloor> | _ \<Rightarrow> 0)"
  by (cases q) auto




lemma fless_positive:
  assumes "fless (Finite 0) a"
  shows "\<not> is_zero a"
  using assms by (cases a) auto

lemma run_all64_valid:
  assumes "valid_config64 P c" "enough_memory P c"
  shows "\<exists>r. run_all64 P c g0 = Inr r \<and> Ts64 r = Ts_of P c \<and> n_samples64 r = n_of P c \<and>
           arange P (lit P (Ti c)) (lit P (Tf c)) (Ts_of P c) = Inr (t64 r) \<and>
           sized64 (nat (n_of P c) + 1) r \<and> y_open_loop64 r ! 0 = Finite 0 \<and>
           (\<forall>i < nat (n_of P c). y_open_loop64 r ! (i + 1) =
                    open_loop_step P c (Ts_of P c) (y_open_loop64 r ! i) (Finite 1))"
proof -
  from assms(1) have fs: "\<not> is_zero (lit P (Fs c))" and ts: "\<not> is_zero (Ts_of P c)"
    and tau: "\<not> is_zero (lit P (tau c))" and n: "1 \<le> n_of P c"
    by (simp_all add: valid_config64_def fless_positive)
  from assms(1) obtain u where q: "quotient_of P c = Finite u"
    by (cases "quotient_of P c") (auto simp add: valid_config64_def)
  then have nu: "n_of P c = \<lfloor>u\<rfloor>"
    by (simp add: n_of_def)
  from assms(2) obtain ts where ar: "arange P (lit P (Ti c)) (lit P (Tf c)) (Ts_of P c) = Inr ts"
    and al: "alloc_error P (n_of P c + 1) = None"
    by (auto simp add: enough_memory_def)
  define g2 where "g2 = g0\<lparr>Ts64 := Ts_of P c, n_samples64 := \<lfloor>u\<rfloor>, t64 := ts\<rparr>"
  have run: "run_all64 P c g0 = and_then (step_response64 P g2) (simulation64 P c)"
    using fs ts by (simp add: run_all64_def initialization64_eq number_of_samples64_eq q ar g2_def)
  have n2: "n_samples64 g2 = n_of P c" and t2: "Ts64 g2 = Ts_of P c" and a2: "t64 g2 = ts"
    by (simp_all add: g2_def nu)
  obtain g3 where g3: "step_response64 P g2 = Inr g3"
    using al n by (simp add: step_response64_eq n2)
  note a = step_response64_Inr [OF g3]
  have len: "nat (n_of P c + 1) = nat (n_of P c) + 1"
    using n by (simp add: nat_add_distrib)
  have i: "i < nat (n_of P c) \<Longrightarrow> m64 g3 ! i = Finite 1" for i
    by (simp add: a(6) n2)
  have "y_open_loop64 g3 ! 0 = Finite 0"
    using n by (simp add: a(7) n2 len)
  with simulation64_succeeds [OF g3, of c] tau run g3 show ?thesis
    by (auto simp add: n2 t2 a2 ar len i)
qed

section \<open>Properties of the binary64 rounding\<close>

text \<open>
  The rounding is odd, monotone, at most half an \<open>ulp\<close> off, exact on the integers up to
  \<open>2^53\<close> and on the powers of two, and stays within the powers of two that enclose its
  argument; beyond \<open>2^1024\<close> it overflows. \<open>round_even_eval\<close> and \<open>binary64_eq\<close> evaluate it at
  a given fraction once its exponent is known.
\<close>

lemma round_even_of_int [simp]: "round_even (of_int k) = k"
  by (simp add: round_even_def)

lemma round_even_error: "\<bar>of_int (round_even x) - x\<bar> \<le> 1 / 2"
  unfolding round_even_def Let_def by (auto; linarith)

lemma round_even_mono:
  assumes "x \<le> z"
  shows "round_even x \<le> round_even z"
proof (cases "\<lfloor>x\<rfloor> = \<lfloor>z\<rfloor>")
  case True
  with assms show ?thesis
    unfolding round_even_def Let_def by auto
next
  case False
  with assms have "\<lfloor>x\<rfloor> + 1 \<le> \<lfloor>z\<rfloor>"
    using floor_mono [OF assms] by linarith
  moreover have "round_even x \<le> \<lfloor>x\<rfloor> + 1" "\<lfloor>z\<rfloor> \<le> round_even z"
    unfolding round_even_def Let_def by auto
  ultimately show ?thesis
    by linarith
qed

lemma round_even_minus: "round_even (- x) = - round_even x"
proof (cases "x \<in> \<int>")
  case True
  then obtain k where "x = of_int k"
    by (auto elim: Ints_cases)
  then have "round_even (- x) = round_even (of_int (- k))"
    by simp
  also have "\<dots> = - k"
    by (rule round_even_of_int)
  finally show ?thesis
    using \<open>x = of_int k\<close> by simp
next
  case False
  then have "x \<noteq> of_int \<lfloor>x\<rfloor>"
    by (metis Ints_of_int)
  then have fl: "\<lfloor>- x\<rfloor> = - \<lfloor>x\<rfloor> - 1"
    by (simp add: floor_minus ceiling_altdef)
  show ?thesis
    unfolding round_even_def Let_def fl by (auto; linarith?)
qed

lemma binade_from_lower: "ex \<le> binade_from k ex x"
  by (induction k ex x rule: binade_from.induct) auto

lemma binade_from_upper: "binade_from k ex x \<le> ex + int k"
  by (induction k ex x rule: binade_from.induct) auto

lemma binade_from_less:
  "binade_from k ex x < ex + int k \<Longrightarrow> x < 2 powi (binade_from k ex x + 1)"
  by (induction k ex x rule: binade_from.induct) (auto split: if_splits)

lemma binade_from_greater:
  "ex < binade_from k ex x \<Longrightarrow> 2 powi (binade_from k ex x) \<le> x"
proof (induction k ex x rule: binade_from.induct)
  case (1 ex x)
  then show ?case by simp
next
  case (2 k ex x)
  show ?case
  proof (cases "x < 2 powi (ex + 1)")
    case True
    with 2(2) show ?thesis by simp
  next
    case False
    show ?thesis
    proof (cases "ex + 1 < binade_from k (ex + 1) x")
      case True
      with 2(1) False show ?thesis by simp
    next
      case no: False
      with binade_from_lower [of "ex + 1" k x] have "binade_from k (ex + 1) x = ex + 1"
        by simp
      with False show ?thesis by simp
    qed
  qed
qed

lemma binade_from_le:
  "x < 2 powi (ex' + 1) \<Longrightarrow> ex \<le> ex' \<Longrightarrow> binade_from k ex x \<le> ex'"
proof (induction k ex x rule: binade_from.induct)
  case (1 ex x)
  then show ?case by simp
next
  case (2 k ex x)
  show ?case
  proof (cases "x < 2 powi (ex + 1)")
    case True
    with 2(3) show ?thesis by simp
  next
    case False
    have "ex \<noteq> ex'"
      using False 2(2) by auto
    with 2 False show ?thesis
      by simp
  qed
qed

lemma binade_from_eq:
  assumes "2 powi ex' \<le> x" "x < 2 powi (ex' + 1)" "ex \<le> ex'" "ex' \<le> ex + int k"
  shows "binade_from k ex x = ex'"
proof (rule antisym)
  show "binade_from k ex x \<le> ex'"
    using assms(2,3) by (rule binade_from_le)
  show "ex' \<le> binade_from k ex x"
  proof (rule ccontr)
    assume "\<not> ex' \<le> binade_from k ex x"
    then have less: "binade_from k ex x + 1 \<le> ex'"
      by simp
    with assms(4) have "binade_from k ex x < ex + int k"
      by simp
    then have "x < 2 powi (binade_from k ex x + 1)"
      by (rule binade_from_less)
    also have "\<dots> \<le> 2 powi ex'"
      using less by (intro power_int_increasing) simp_all
    finally show False
      using assms(1) by simp
  qed
qed


lemma binade_range: "- 1022 \<le> binade x" "binade x \<le> 1023"
  using binade_from_lower [of "- 1022" 2045 "\<bar>x\<bar>"] binade_from_upper [of 2045 "- 1022" "\<bar>x\<bar>"]
  by (simp_all add: binade_def)

lemma binade_minus [simp]: "binade (- x) = binade x"
  by (simp add: binade_def)


lemma binade_less: "binade x < 1023 \<Longrightarrow> \<bar>x\<bar> < 2 powi (binade x + 1)"
  unfolding binade_def using binade_from_less [of 2045 "- 1022" "\<bar>x\<bar>"] by simp

lemma binade_greater: "- 1022 < binade x \<Longrightarrow> 2 powi (binade x) \<le> \<bar>x\<bar>"
  unfolding binade_def by (rule binade_from_greater)

lemma binade_le: "\<bar>x\<bar> < 2 powi (ex + 1) \<Longrightarrow> - 1022 \<le> ex \<Longrightarrow> binade x \<le> ex"
  unfolding binade_def by (rule binade_from_le)

lemma binade_eq:
  assumes "2 powi ex \<le> \<bar>x\<bar>" "\<bar>x\<bar> < 2 powi (ex + 1)" "- 1022 \<le> ex" "ex \<le> 1023"
  shows "binade x = ex"
  unfolding binade_def using assms by (intro binade_from_eq) simp_all

lemma ulp_pos: "0 < ulp x"
  by (simp add: ulp_def)

lemma nearest_ulp: "nearest x = of_int (round_even (x / ulp x)) * ulp x"
  by (simp add: nearest_def)

lemma ulp_minus [simp]: "ulp (- x) = ulp x"
  by (simp add: ulp_def)

lemma nearest_minus: "nearest (- x) = - nearest x"
  by (simp add: nearest_ulp round_even_minus)

lemma nearest_grid_le:
  assumes "of_int k * ulp x \<le> x"
  shows "of_int k * ulp x \<le> nearest x"
proof -
  have "of_int k \<le> x / ulp x"
    using assms ulp_pos [of x] by (simp add: pos_le_divide_eq)
  then have "round_even (of_int k) \<le> round_even (x / ulp x)"
    by (rule round_even_mono)
  then have "k \<le> round_even (x / ulp x)"
    by simp
  then have "(of_int k :: real) \<le> of_int (round_even (x / ulp x))"
    by simp
  then show ?thesis
    unfolding nearest_ulp using ulp_pos [of x] by (simp add: mult_right_mono)
qed

lemma nearest_grid_ge:
  assumes "x \<le> of_int k * ulp x"
  shows "nearest x \<le> of_int k * ulp x"
proof -
  have "x / ulp x \<le> of_int k"
    using assms ulp_pos [of x] by (simp add: pos_divide_le_eq)
  then have "round_even (x / ulp x) \<le> round_even (of_int k)"
    by (rule round_even_mono)
  then have "round_even (x / ulp x) \<le> k"
    by simp
  then have "(of_int (round_even (x / ulp x)) :: real) \<le> of_int k"
    by simp
  then show ?thesis
    unfolding nearest_ulp using ulp_pos [of x] by (simp add: mult_right_mono)
qed



lemma power_of_two_on_grid:
  assumes "binade x - 52 \<le> ex"
  shows "(2::real) powi ex = of_int (2 ^ nat (ex - (binade x - 52))) * ulp x"
proof -
  have "(2::real) powi ex = 2 powi ((ex - (binade x - 52)) + (binade x - 52))"
    by simp
  also have "\<dots> = 2 powi (ex - (binade x - 52)) * 2 powi (binade x - 52)"
    by (subst power_int_add) simp_all
  also have "(2::real) powi (ex - (binade x - 52)) = 2 ^ nat (ex - (binade x - 52))"
    using assms by (simp add: power_int_def)
  finally show ?thesis
    by (simp add: ulp_def)
qed



lemma nearest_error: "\<bar>nearest x - x\<bar> \<le> ulp x / 2"
proof -
  have "nearest x - x = (of_int (round_even (x / ulp x)) - x / ulp x) * ulp x"
    using ulp_pos [of x] by (simp add: nearest_ulp algebra_simps)
  then have "\<bar>nearest x - x\<bar> = \<bar>of_int (round_even (x / ulp x)) - x / ulp x\<bar> * ulp x"
    using ulp_pos [of x] by (simp add: abs_mult)
  also have "\<dots> \<le> 1 / 2 * ulp x"
    using round_even_error [of "x / ulp x"] ulp_pos [of x] by (intro mult_right_mono) simp_all
  finally show ?thesis
    by simp
qed

lemma nearest_of_int:
  assumes "\<bar>i\<bar> \<le> 2 ^ 53"
  shows "nearest (of_int i) = of_int i"
proof -
  define x :: real where "x = of_int i"
  have le: "binade x - 52 \<le> 1"
  proof (cases "\<bar>i\<bar> = 2 ^ 53")
    case True
    then have "\<bar>x\<bar> = 2 powi 53"
      unfolding x_def by (simp flip: of_int_abs)
    then have "binade x = 53"
      by (intro binade_eq) simp_all
    then show ?thesis
      by simp
  next
    case False
    with assms have "\<bar>i\<bar> < 2 ^ 53"
      by simp
    then have "\<bar>x\<bar> < 2 ^ 53"
      unfolding x_def by (simp flip: of_int_abs)
    then have "\<bar>x\<bar> < 2 powi (52 + 1)"
      by simp
    then have "binade x \<le> 52"
      by (rule binade_le) simp
    then show ?thesis
      by simp
  qed
  have "\<exists>k. x = of_int k * ulp x"
  proof (cases "binade x - 52 \<le> 0")
    case True
    then have "(1::real) = of_int (2 ^ nat (0 - (binade x - 52))) * ulp x"
      using power_of_two_on_grid [of x 0] by simp
    then have "x = of_int (i * 2 ^ nat (0 - (binade x - 52))) * ulp x"
      unfolding x_def by (simp add: mult.assoc)
    then show ?thesis ..
  next
    case False
    with le have b: "binade x = 53"
      by simp
    then have "- 1022 < binade x"
      by simp
    then have "2 powi (binade x) \<le> \<bar>x\<bar>"
      by (rule binade_greater)
    then have "2 ^ 53 \<le> \<bar>x\<bar>"
      by (simp add: b)
    then have "2 ^ 53 \<le> \<bar>i\<bar>"
      unfolding x_def by (simp flip: of_int_abs)
    with assms have "\<bar>i\<bar> = 2 ^ 53"
      by simp
    then have "i = 2 ^ 53 \<or> i = - (2 ^ 53)"
      by linarith
    moreover have "ulp x = 2"
      by (simp add: ulp_def b)
    ultimately have "x = of_int (i div 2) * ulp x"
      unfolding x_def by auto
    then show ?thesis ..
  qed
  then obtain k where k: "x = of_int k * ulp x" ..
  then have "x / ulp x = of_int k"
    using ulp_pos [of x] by (metis nonzero_mult_div_cancel_right order_less_irrefl)
  then have "nearest x = of_int k * ulp x"
    by (simp add: nearest_ulp)
  with k show ?thesis
    by (simp add: x_def)
qed

lemma nearest_eq:
  assumes "2 powi ex \<le> \<bar>x\<bar>" "\<bar>x\<bar> < 2 powi (ex + 1)" "- 1022 \<le> ex" "ex \<le> 1023"
  shows "nearest x = of_int (round_even (x / 2 powi (ex - 52))) * 2 powi (ex - 52)"
  using binade_eq [OF assms] by (simp add: nearest_def ulp_def)

lemma round_even_eval:
  "round_even (numeral a / numeral b) =
     (let f = numeral a div numeral b; d = 2 * (numeral a mod numeral b) :: int
      in if d < numeral b then f else if numeral b < d then f + 1
         else if even f then f else f + 1)"
proof -
  define p q :: int where "p = numeral a" and "q = numeral b"
  have q: "0 < q" by (simp add: q_def)
  have fl: "\<lfloor>real_of_int p / real_of_int q\<rfloor> = p div q"
    by (simp add: floor_divide_of_int_eq)
  have d: "real_of_int p / real_of_int q - of_int (p div q) = of_int (p mod q) / of_int q"
    using q by (simp add: field_simps flip: of_int_mult of_int_add)
  have "round_even (of_int p / of_int q) =
     (let f = p div q; d = 2 * (p mod q)
      in if d < q then f else if q < d then f + 1
         else if even f then f else f + 1)"
    unfolding round_even_def Let_def fl d using q
    by (simp add: field_simps flip: of_int_mult of_int_add)
  then show ?thesis
    unfolding p_def q_def by simp
qed

lemma round_even_numeral: "round_even (numeral k) = numeral k"
  using round_even_of_int [of "numeral k"] by simp

lemma nearest_bound:
  assumes "\<bar>x\<bar> \<le> 2 powi k" "binade x - 52 \<le> k"
  shows "\<bar>nearest x\<bar> \<le> 2 powi k"
proof -
  have up: "nearest v \<le> 2 powi k" if "v \<le> 2 powi k" "binade v - 52 \<le> k" for v
  proof -
    from that have "v \<le> of_int (2 ^ nat (k - (binade v - 52))) * ulp v"
      using power_of_two_on_grid [of v k] by simp
    then have "nearest v \<le> of_int (2 ^ nat (k - (binade v - 52))) * ulp v"
      by (rule nearest_grid_ge)
    with that show ?thesis
      using power_of_two_on_grid [of v k] by simp
  qed
  have "nearest x \<le> 2 powi k"
    using assms by (intro up) simp_all
  moreover have "nearest (- x) \<le> 2 powi k"
    using assms by (intro up) simp_all
  ultimately show ?thesis
    by (simp add: nearest_minus abs_le_iff)
qed

lemma below_overflow_threshold:
  assumes "k \<le> 1023"
  shows "2 powi k < overflow_threshold"
proof -
  have "(2::real) powi k < 2 powi 1024"
    using assms by (intro power_int_strict_increasing) simp_all
  also have "(2::real) powi 1024 = 2 ^ 1024"
    by (rule power_int_numeral)
  finally show ?thesis
    by (simp only: overflow_threshold_def)
qed

lemma binary64_Finite:
  assumes "\<bar>nearest x\<bar> < overflow_threshold"
  shows "binary64 x = Finite (nearest x)"
  using assms by (simp add: binary64_def Let_def abs_less_iff)

lemma binary64_of_int:
  assumes "\<bar>i\<bar> \<le> 2 ^ 53"
  shows "binary64 (of_int i) = Finite (of_int i)"
proof -
  from assms have "real_of_int \<bar>i\<bar> \<le> real_of_int (2 ^ 53)"
    by (rule of_int_le_iff [THEN iffD2])
  then have "\<bar>real_of_int i\<bar> \<le> 2 ^ 53"
    by simp
  also have "(2::real) ^ 53 = 2 powi 53"
    by simp
  also have "\<dots> < overflow_threshold"
    by (rule below_overflow_threshold) simp
  finally show ?thesis
    using nearest_of_int [OF assms] by (simp add: binary64_Finite)
qed


lemma binary64_eq:
  assumes "2 powi ex \<le> \<bar>x\<bar>" "\<bar>x\<bar> < 2 powi (ex + 1)" "- 1022 \<le> ex" "ex \<le> 1022"
  shows "binary64 x = Finite (of_int (round_even (x / 2 powi (ex - 52))) * 2 powi (ex - 52))"
proof -
  have b: "binade x = ex"
    using assms by (intro binade_eq) simp_all
  have "\<bar>nearest x\<bar> \<le> 2 powi (ex + 1)"
    using assms(2) by (intro nearest_bound) (simp_all add: b)
  also have "(2::real) powi (ex + 1) < overflow_threshold"
    using assms(4) by (intro below_overflow_threshold) simp
  finally have "binary64 x = Finite (nearest x)"
    by (rule binary64_Finite)
  then show ?thesis
    using assms by (simp add: nearest_eq)
qed

lemma binary64_accurate:
  assumes "\<bar>x\<bar> < 4"
  shows "\<exists>v. binary64 x = Finite v \<and> \<bar>v - x\<bar> \<le> 1 / 2 ^ 52"
proof -
  have "\<bar>x\<bar> < 2 powi (1 + 1)"
    using assms by simp
  then have b: "binade x \<le> 1"
    by (rule binade_le) simp
  have "\<bar>nearest x\<bar> \<le> 2 powi 2"
    using assms b by (intro nearest_bound) simp_all
  also have "(2::real) powi 2 < overflow_threshold"
    by (rule below_overflow_threshold) simp
  finally have fin: "binary64 x = Finite (nearest x)"
    by (rule binary64_Finite)
  have "ulp x \<le> 2 powi (1 - 52)"
    unfolding ulp_def using b by (intro power_int_increasing) simp_all
  then have "ulp x / 2 \<le> 1 / 2 ^ 52"
    by (simp add: power_int_minus field_simps)
  with nearest_error [of x] have "\<bar>nearest x - x\<bar> \<le> 1 / 2 ^ 52"
    by simp
  with fin show ?thesis
    by simp
qed

lemma binary64_overflow:
  assumes "overflow_threshold \<le> x"
  shows "binary64 x = PInf"
proof -
  have x: "2 powi 1024 \<le> x"
    using assms by (simp only: overflow_threshold_def power_int_numeral)
  then have pos: "\<bar>x\<bar> = x"
    by (smt (verit) zero_less_power_int)
  have "binade x = 1023"
  proof (rule ccontr)
    assume "binade x \<noteq> 1023"
    with binade_range(2) [of x] have less: "binade x < 1023"
      by simp
    then have "\<bar>x\<bar> < 2 powi (binade x + 1)"
      by (rule binade_less)
    also have "\<dots> \<le> 2 powi 1024"
      using less by (intro power_int_increasing) simp_all
    finally show False
      using x pos by simp
  qed
  then have "(2::real) powi 1024 = of_int (2 ^ nat (1024 - (1023 - 52))) * ulp x"
    using power_of_two_on_grid [of x 1024] by simp
  with x have "of_int (2 ^ nat (1024 - (1023 - 52))) * ulp x \<le> nearest x"
    by (intro nearest_grid_le) simp
  with \<open>2 powi 1024 = of_int (2 ^ nat (1024 - (1023 - 52))) * ulp x\<close>
  have "overflow_threshold \<le> nearest x"
    by (simp only: overflow_threshold_def power_int_numeral [symmetric])
  then show ?thesis
    by (simp add: binary64_def)
qed

lemma binary64_power_of_two:
  assumes "- 1022 \<le> ex" "ex \<le> 1022"
  shows "binary64 (2 powi ex) = Finite (2 powi ex)"
proof -
  have "(2::real) powi ex = of_int (2 ^ 52) * 2 powi (ex - 52)"
    by (simp add: power_int_diff)
  then have "2 powi ex / 2 powi (ex - 52) = real_of_int (2 ^ 52)"
    by simp
  then have "round_even (2 powi ex / 2 powi (ex - 52)) = 2 ^ 52"
    by (simp only: round_even_of_int)
  moreover have "binary64 (2 powi ex) =
      Finite (of_int (round_even (2 powi ex / 2 powi (ex - 52))) * 2 powi (ex - 52))"
    using assms by (intro binary64_eq) (simp_all add: power_int_strict_increasing)
  ultimately show ?thesis
    using \<open>2 powi ex = of_int (2 ^ 52) * 2 powi (ex - 52)\<close> by simp
qed

lemma binary64_0 [simp]: "binary64 0 = Finite 0"
  using binary64_of_int [of 0] by simp

lemma binary64_1 [simp]: "binary64 1 = Finite 1"
  using binary64_of_int [of 1] by simp

lemma binary64_numeral:
  assumes "numeral k \<le> (2 ^ 53 :: int)"
  shows "binary64 (numeral k) = Finite (numeral k)"
    and "binary64 (- numeral k) = Finite (- numeral k)"
  using binary64_of_int [of "numeral k"] binary64_of_int [of "- numeral k"] assms by simp_all

lemma binary64_third: "binary64 (1 / 3) = Finite (6004799503160661 / 2 ^ 54)"
  by (subst binary64_eq [where ex = "- 2"]) (simp_all add: round_even_eval)

text \<open>
The platform of the notebook has the three properties of a rounding function.
\<close>

lemma rnd_float64 [simp]: "rnd (float64_platform M) = binary64"
  by (simp add: float64_platform_def)

lemma alloc_error_float64 [simp]:
  "alloc_error (float64_platform M) k = (if int M < k then Some MemoryError else None)"
  by (simp add: float64_platform_def)

lemma arange_float64 [simp]:
  "arange (float64_platform M) =
     np_arange64 binary64 (\<lambda>k. if int M < k then Some MemoryError else None)"
  by (simp add: float64_platform_def)



lemma accurate_float64: "accurate (float64_platform M) (1 / 2 ^ 52)"
proof -
  have "rnd (float64_platform M) = binary64"
    by (simp add: float64_platform_def)
  then show ?thesis
    unfolding accurate_def using binary64_accurate by metis
qed

section \<open>The open loop under rounding\<close>










text \<open>
  With \<open>Ts < tau\<close> every pass contracts the distance to 1 by the rounded coefficient and
  adds at most four rounding errors.
\<close>

lemma accurateD:
  assumes "accurate P u" "\<bar>x\<bar> < 4"
  shows "\<exists>v. rnd P x = Finite v \<and> \<bar>v - x\<bar> \<le> u"
  using assms by (simp add: accurate_def)

lemma accurate_nonneg:
  assumes "accurate P u"
  shows "0 \<le> u"
proof -
  from accurateD [OF assms, of 0] obtain v where "\<bar>v - 0\<bar> \<le> u"
    by auto
  then show ?thesis
    by simp
qed

lemma settling_step:
  assumes "accurate P u" "u \<le> 1 / 8"
    and "0 \<le> ga" "ga \<le> 1" "0 \<le> al" "al \<le> 1" "\<bar>ga + al - 1\<bar> \<le> u"
    and "\<bar>1 - v\<bar> \<le> 1"
  shows "\<exists>w. fadd (rnd P) (fmul (rnd P) (Finite ga) (Finite v))
                         (fmul (rnd P) (Finite al) (Finite 1)) = Finite w \<and>
             \<bar>1 - w\<bar> \<le> ga * \<bar>1 - v\<bar> + 4 * u"
proof -
  have u: "0 \<le> u"
    using assms(1) by (rule accurate_nonneg)
  have v: "0 \<le> v" "v \<le> 2"
    using assms(8) by simp_all
  have "ga * v \<le> 1 * 2"
    using assms(3,4) v by (intro mult_mono) simp_all
  moreover have "0 \<le> ga * v"
    using assms(3) v by simp
  ultimately have gv: "0 \<le> ga * v" "ga * v \<le> 2"
    by simp_all
  then have "\<bar>ga * v\<bar> < 4"
    by simp
  from accurateD [OF assms(1) this] obtain p where p: "rnd P (ga * v) = Finite p"
      "\<bar>p - ga * v\<bar> \<le> u"
    by blast
  have "\<bar>al * 1\<bar> < 4"
    using assms(5,6) by simp
  from accurateD [OF assms(1) this] obtain q where q: "rnd P (al * 1) = Finite q"
      "\<bar>q - al\<bar> \<le> u"
    by auto
  have "\<bar>p + q\<bar> < 4"
    using p(2) q(2) gv assms(2,5,6) by linarith
  from accurateD [OF assms(1) this] obtain w where w: "rnd P (p + q) = Finite w"
      "\<bar>w - (p + q)\<bar> \<le> u"
    by blast
  have eq: "fadd (rnd P) (fmul (rnd P) (Finite ga) (Finite v))
                (fmul (rnd P) (Finite al) (Finite 1)) = Finite w"
    using p(1) q(1) w(1) by simp
  define d where "d = ga * (1 - v)"
  have "\<bar>d\<bar> = ga * \<bar>1 - v\<bar>"
    using assms(3) by (simp add: d_def abs_mult)
  moreover have "ga * v = ga - d"
    by (simp add: d_def algebra_simps)
  ultimately have "\<bar>1 - w\<bar> \<le> ga * \<bar>1 - v\<bar> + 4 * u"
    using p(2) q(2) w(2) assms(7) by linarith
  with eq show ?thesis
    by blast
qed

lemma settling_bound:
  fixes ys :: "nat \<Rightarrow> f64" and k n :: nat
  assumes "accurate P u" "u \<le> 1 / 8"
    and "0 \<le> ga" "ga \<le> 1 - sg" "0 \<le> al" "al \<le> 1" "\<bar>ga + al - 1\<bar> \<le> u"
    and "0 < sg" "4 * u \<le> sg"
    and "ys 0 = Finite 0"
    and "\<forall>i < n. ys (i + 1) = fadd (rnd P) (fmul (rnd P) (Finite ga) (ys i))
                                   (fmul (rnd P) (Finite al) (Finite 1))"
  shows "k \<le> n \<Longrightarrow>
           \<exists>v. ys k = Finite v \<and> \<bar>1 - v\<bar> \<le> (1 - sg) ^ k * (1 - 4 * u / sg) + 4 * u / sg"
proof (induction k)
  case 0
  then show ?case
    using assms(10) by simp
next
  case (Suc k)
  define ka where "ka = 4 * u / sg"
  define rho where "rho = 1 - sg"
  have u: "0 \<le> u"
    using assms(1) by (rule accurate_nonneg)
  have ka: "0 \<le> ka" "ka \<le> 1" "ka * sg = 4 * u"
    using u assms(8,9) by (simp_all add: ka_def)
  have rho: "0 \<le> rho" "rho \<le> 1"
    using assms(3,4,8) by (simp_all add: rho_def)
  from Suc obtain v where v: "ys k = Finite v" "\<bar>1 - v\<bar> \<le> rho ^ k * (1 - ka) + ka"
    unfolding ka_def rho_def by auto
  define B where "B = rho ^ k * (1 - ka) + ka"
  have "rho ^ k \<le> 1" "0 \<le> rho ^ k"
    using rho by (simp_all add: power_le_one)
  then have "rho ^ k * (1 - ka) \<le> 1 * (1 - ka)" "0 \<le> rho ^ k * (1 - ka)"
    using ka by (intro mult_right_mono mult_nonneg_nonneg; simp)+
  then have B: "0 \<le> B" "B \<le> 1"
    using ka by (simp_all add: B_def)
  have vB: "\<bar>1 - v\<bar> \<le> B"
    using v(2) by (simp add: B_def)
  then have "\<bar>1 - v\<bar> \<le> 1"
    using B by simp
  from settling_step [OF assms(1,2,3) _ assms(5,6,7) this]
  obtain w where w: "fadd (rnd P) (fmul (rnd P) (Finite ga) (Finite v))
                         (fmul (rnd P) (Finite al) (Finite 1)) = Finite w"
      "\<bar>1 - w\<bar> \<le> ga * \<bar>1 - v\<bar> + 4 * u"
    using assms(4,8) by auto
  have "ys (Suc k) = Finite w"
    using assms(11) Suc.prems w(1) by (simp add: v(1))
  moreover have "\<bar>1 - w\<bar> \<le> rho ^ Suc k * (1 - ka) + ka"
  proof -
    have "ga * \<bar>1 - v\<bar> \<le> rho * B"
      using assms(3,4) vB B by (intro mult_mono) (simp_all add: rho_def)
    with w(2) have "\<bar>1 - w\<bar> \<le> rho * B + ka * sg"
      by (simp add: ka(3))
    also have "rho * B + ka * sg = rho ^ Suc k * (1 - ka) + ka * (rho + sg)"
      by (simp add: B_def algebra_simps)
    also have "rho + sg = 1"
      by (simp add: rho_def)
    finally show ?thesis
      by simp
  qed
  ultimately show ?case
    unfolding ka_def rho_def by blast
qed

lemma open_loop_coefficients:
  assumes "accurate P u" "0 < s" "6 * u \<le> T / s" "T / s \<le> 1 - 2 * u"
  shows "\<exists>al ga. fdiv (rnd P) (Finite T) (Finite s) = Finite al \<and>
           fsub (rnd P) (Finite 1) (Finite al) = Finite ga \<and>
           0 \<le> ga \<and> ga \<le> 1 - (T / s - 2 * u) \<and> 0 \<le> al \<and> al \<le> 1 \<and> \<bar>ga + al - 1\<bar> \<le> u"
proof -
  have u: "0 \<le> u"
    using assms(1) by (rule accurate_nonneg)
  have "\<bar>T / s\<bar> < 4"
    using assms(3,4) u by simp
  from accurateD [OF assms(1) this] obtain al where al: "rnd P (T / s) = Finite al"
      "\<bar>al - T / s\<bar> \<le> u"
    by blast
  have "\<bar>1 + - al\<bar> < 4"
    using al(2) assms(3,4) u by linarith
  from accurateD [OF assms(1) this] obtain ga where ga: "rnd P (1 + - al) = Finite ga"
      "\<bar>ga - (1 + - al)\<bar> \<le> u"
    by blast
  have "fdiv (rnd P) (Finite T) (Finite s) = Finite al"
    using assms(2) al(1) by simp
  moreover have "fsub (rnd P) (Finite 1) (Finite al) = Finite ga"
    using ga(1) by (simp add: fsub_def)
  moreover have "0 \<le> ga" "ga \<le> 1 - (T / s - 2 * u)" "0 \<le> al" "al \<le> 1" "\<bar>ga + al - 1\<bar> \<le> u"
    using al(2) ga(2) assms(3,4) u by linarith+
  ultimately show ?thesis
    by blast
qed

section \<open>Runs under IEEE 754 rounding\<close>




lemma notebook_config_fields:
  "Fs notebook_config = 100" "Tf notebook_config = 10" "Ti notebook_config = 0"
  "tau notebook_config = 2"
  by (simp_all add: notebook_config_def)

lemma Ts_of_notebook_config:
  "Ts_of (float64_platform M) notebook_config = Finite (5764607523034235 / 2 ^ 59)"
proof -
  have "binary64 (1 / 100) = Finite (5764607523034235 / 2 ^ 59)"
    by (subst binary64_eq [where ex = "- 7"]) (simp_all add: round_even_eval)
  then show ?thesis
    by (simp add: Ts_of_def lit_def notebook_config_fields binary64_numeral)
qed

lemma quotient_of_notebook_config:
  "quotient_of (float64_platform M) notebook_config = Finite 1000"
proof -
  have "binary64 (10 / (5764607523034235 / 2 ^ 59)) = Finite 1000"
    by (subst binary64_eq [where ex = 9]) (simp_all add: round_even_eval)
  then show ?thesis
    by (simp add: quotient_of_def Ts_of_notebook_config lit_def notebook_config_fields
        binary64_numeral)
qed

lemma third_config_fields:
  "Fs third_config = 1" "Tf third_config = 2" "Ti third_config = 0" "tau third_config = 3"
  by (simp_all add: third_config_def)

text \<open>
  \<open>Fs = 49\<close>, \<open>Tf = 1\<close>: \<open>Tf\<close> is a whole multiple of the exact \<open>1 / Fs\<close>, but the float
  quotient is just above 49, so that \<^verbatim>\<open>n_samples\<close> is 49 and \<^verbatim>\<open>np.arange\<close> yields 50 time
  points.
\<close>

lemma whole_multiple_config_fields:
  "Fs whole_multiple_config = 49" "Tf whole_multiple_config = 1" "Ti whole_multiple_config = 0"
  "tau whole_multiple_config = 2"
  by (simp_all add: whole_multiple_config_def)

lemma time_base_float64:
  "\<exists>r. run_all64 (float64_platform 1000) whole_multiple_config blank64 = Inr r \<and>
      Ts64 r = Finite (5882252574524729 / 2 ^ 58) \<and> n_samples64 r = 49 \<and>
      length (t64 r) = 50 \<and> length (y_open_loop64 r) = 50"
proof -
  let ?P = "float64_platform 1000"
  let ?c = whole_multiple_config
  have ts': "binary64 (1 / 49) = Finite (5882252574524729 / 2 ^ 58)"
    by (subst binary64_eq [where ex = "- 6"]) (simp_all add: round_even_eval)
  have q': "binary64 (1 / (5882252574524729 / 2 ^ 58)) = Finite (6896136929411073 / 2 ^ 47)"
    by (subst binary64_eq [where ex = 5]) (simp_all add: round_even_eval)
  have ts: "Ts_of ?P ?c = Finite (5882252574524729 / 2 ^ 58)"
    using ts' by (simp add: Ts_of_def lit_def whole_multiple_config_fields binary64_numeral)
  have q: "quotient_of ?P ?c = Finite (6896136929411073 / 2 ^ 47)"
    using q' by (simp add: quotient_of_def ts lit_def whole_multiple_config_fields)
  have n: "n_of ?P ?c = 49"
    by (simp add: n_of_def q)
  have tau: "lit ?P (tau ?c) = Finite 2" and fs: "lit ?P (Fs ?c) = Finite 49"
    by (simp_all add: lit_def whole_multiple_config_fields binary64_numeral)
  have v: "valid_config64 ?P ?c"
    by (simp add: valid_config64_def ts q n tau fs)
  have "\<exists>ts. arange ?P (lit ?P (Ti ?c)) (lit ?P (Tf ?c)) (Ts_of ?P ?c) = Inr ts \<and>
          length ts = 50"
    using q' by (simp add: ts lit_def whole_multiple_config_fields np_arange64_def
        py_truediv_def fsub_def)
  then obtain ts where ar: "arange ?P (lit ?P (Ti ?c)) (lit ?P (Tf ?c)) (Ts_of ?P ?c) = Inr ts"
      "length ts = 50"
    by blast
  then have mem: "enough_memory ?P ?c"
    by (simp add: enough_memory_def n)
  from run_all64_valid [OF v mem, of blank64]
  obtain r where r: "run_all64 ?P ?c blank64 = Inr r" "Ts64 r = Ts_of ?P ?c"
      "n_samples64 r = n_of ?P ?c"
      "arange ?P (lit ?P (Ti ?c)) (lit ?P (Tf ?c)) (Ts_of ?P ?c) = Inr (t64 r)"
      "sized64 (nat (n_of ?P ?c) + 1) r"
    by blast
  from r(4) ar have "length (t64 r) = 50"
    by simp
  with r(1,2,3,5) ts n show ?thesis
    by (intro exI [of _ r]) (simp add: sized64_def)
qed

text \<open>
  Two runs that fail where exact arithmetic would not: the float quotient of
  \<open>Tf = 0.3333333333333333\<close> and \<open>Ts = 1/3\<close> is 1, not below it, so that a pass is made and
  \<open>tau = 0\<close> raises; and a quotient that overflows makes \<^verbatim>\<open>math.floor\<close> raise.
\<close>

lemma rounded_quotient_config_fields:
  "Fs rounded_quotient_config = 3" "Tf rounded_quotient_config = 6004799503160661 / 2 ^ 54"
  "Ti rounded_quotient_config = 0" "tau rounded_quotient_config = 0"
  by (simp_all add: rounded_quotient_config_def)

lemma rounded_quotient_fails:
  "run_all64 (float64_platform 1000) rounded_quotient_config blank64 = Inl ZeroDivisionError"
  "n_of (float64_platform 1000) rounded_quotient_config = 1"
  "\<lfloor>Tf rounded_quotient_config / (1 / Fs rounded_quotient_config)\<rfloor> = 0"
proof -
  let ?P = "float64_platform 1000"
  let ?c = rounded_quotient_config
  have tf': "binary64 (6004799503160661 / 2 ^ 54) = Finite (6004799503160661 / 2 ^ 54)"
    by (subst binary64_eq [where ex = "- 2"]) (simp_all add: round_even_numeral)
  have ts: "Ts_of ?P ?c = Finite (6004799503160661 / 2 ^ 54)"
    using binary64_third
    by (simp add: Ts_of_def lit_def rounded_quotient_config_fields binary64_numeral)
  have q: "quotient_of ?P ?c = Finite 1"
    using tf' by (simp add: quotient_of_def ts lit_def rounded_quotient_config_fields)
  show n: "n_of ?P ?c = 1"
    by (simp add: n_of_def q)
  show "\<lfloor>Tf ?c / (1 / Fs ?c)\<rfloor> = 0"
    by (simp add: rounded_quotient_config_fields)
  have tau: "is_zero (lit ?P (tau ?c))" and fs: "lit ?P (Fs ?c) = Finite 3"
    by (simp_all add: lit_def rounded_quotient_config_fields binary64_numeral)
  have "\<exists>ts. arange ?P (lit ?P (Ti ?c)) (lit ?P (Tf ?c)) (Ts_of ?P ?c) = Inr ts"
    using tf' by (simp add: ts lit_def rounded_quotient_config_fields np_arange64_def
        py_truediv_def fsub_def)
  then obtain ts where ar: "arange ?P (lit ?P (Ti ?c)) (lit ?P (Tf ?c)) (Ts_of ?P ?c) = Inr ts"
    by blast
  define g2 where "g2 = blank64\<lparr>Ts64 := Ts_of ?P ?c, n_samples64 := 1, t64 := ts\<rparr>"
  have run: "run_all64 ?P ?c blank64 = and_then (step_response64 ?P g2) (simulation64 ?P ?c)"
    using ar unfolding run_all64_def initialization64_eq fs
    by (simp add: number_of_samples64_eq q g2_def) (simp add: ts)
  obtain g3 where g3: "step_response64 ?P g2 = Inr g3"
    by (simp add: step_response64_eq g2_def)
  have "n_samples64 g3 = 1"
    using step_response64_Inr(2) [OF g3] by (simp add: g2_def)
  then have "simulation64 ?P ?c g3 = Inl ZeroDivisionError"
    using tau by (intro simulation64_tau_0) simp_all
  then show "run_all64 ?P ?c blank64 = Inl ZeroDivisionError"
    by (simp add: run g3)
qed

lemma overflow_config_fields:
  "Fs overflow_config = 2 powi 30" "Tf overflow_config = 2 powi 1000" "Ti overflow_config = 0"
  by (simp_all add: overflow_config_def)

lemma quotient_overflows:
  "run_all64 (float64_platform 1000) overflow_config blank64 = Inl OverflowError"
proof -
  let ?P = "float64_platform 1000"
  let ?c = overflow_config
  have fs: "lit ?P (Fs ?c) = Finite (2 powi 30)" and tf: "lit ?P (Tf ?c) = Finite (2 powi 1000)"
    unfolding lit_def overflow_config_fields rnd_float64
    by (rule binary64_power_of_two; simp)+
  have "binary64 (1 / 2 powi 30) = binary64 (2 powi (- 30))"
    by (simp add: power_int_minus_divide)
  also have "\<dots> = Finite (2 powi (- 30))"
    by (rule binary64_power_of_two) simp_all
  finally have ts: "Ts_of ?P ?c = Finite (2 powi (- 30))"
    unfolding Ts_of_def fs by simp
  have "(2::real) powi 1000 / 2 powi (- 30) = 2 powi (1000 - (- 30))"
    by (subst power_int_diff) simp_all
  also have "overflow_threshold \<le> 2 powi (1000 - (- 30))"
    unfolding overflow_threshold_def power_int_numeral [symmetric]
    by (intro power_int_increasing) simp_all
  finally have "binary64 (2 powi 1000 / 2 powi (- 30)) = PInf"
    by (rule binary64_overflow)
  then have q: "quotient_of ?P ?c = PInf"
    unfolding quotient_of_def ts tf by simp
  have "\<not> is_zero (lit ?P (Fs ?c))" "\<not> is_zero (Ts_of ?P ?c)"
    unfolding fs ts by simp_all
  then show ?thesis
    by (simp add: run_all64_def initialization64_eq number_of_samples64_eq q)
qed

section \<open>The claims\<close>

subsection \<open>C1: the plant updates\<close>

text \<open>
  C1. For every valid configuration the run succeeds, and at every loop index
  \<open>i < n_samples\<close> the open-loop output satisfies
  \<open>y_open_loop[i+1] = (1 - Ts/tau) * y_open_loop[i] + (Ts/tau) * m[i]\<close> with the constant
  forcing input \<open>m[i] = 1\<close>, and the closed-loop output satisfies
  \<open>y[i+1] = (1 - Ts/tau) * y[i] + (Ts/tau) * m_cont[i]\<close>, \<open>m_cont[i]\<close> being the controller
  output of the previous pass. The equations are between the entries of the final arrays.
\<close>

theorem plant_updates:
  assumes "valid_config c"
  shows "\<exists>r. run_all c g0 = Inr r \<and> Ts r = 1 / Fs c \<and> n_samples r = \<lfloor>Tf c / Ts r\<rfloor> \<and>
           (\<forall>i < nat (n_samples r).
              m r ! i = 1 \<and>
              y_open_loop r ! (i + 1) =
                (1 - Ts r / tau c) * y_open_loop r ! i + (Ts r / tau c) * m r ! i \<and>
              y r ! (i + 1) = (1 - Ts r / tau c) * y r ! i + (Ts r / tau c) * m_cont r ! i)"
proof -
  from run_all_spec [OF valid_configD [OF assms], of g0]
  obtain r where r: "run_all c g0 = Inr r" "Ts r = 1 / Fs c" "n_samples r = \<lfloor>Tf c / Ts r\<rfloor>"
      "m r = replicate (nat (n_samples r) + 1) 1" "\<forall>i < nat (n_samples r). recurrence c r i"
    by blast
  have "m r ! i = 1" if "i < nat (n_samples r)" for i
    using that by (intro nth_ones [OF r(4)]) simp
  with r show ?thesis
    by (auto simp add: recurrence_def)
qed

theorem plant_updates_witness:
  "valid_config notebook_config \<and>
   (\<exists>r. run_all notebook_config blank = Inr r \<and> n_samples r = 1000 \<and>
      (\<forall>i < nat (n_samples r).
         m r ! i = 1 \<and>
         y_open_loop r ! (i + 1) =
           (1 - Ts r / tau notebook_config) * y_open_loop r ! i +
           (Ts r / tau notebook_config) * m r ! i \<and>
         y r ! (i + 1) =
           (1 - Ts r / tau notebook_config) * y r ! i +
           (Ts r / tau notebook_config) * m_cont r ! i))"
proof -
  from plant_updates [OF valid_notebook_config, of blank]
  obtain r where r: "run_all notebook_config blank = Inr r"
      "Ts r = 1 / Fs notebook_config" "n_samples r = \<lfloor>Tf notebook_config / Ts r\<rfloor>"
      "\<forall>i < nat (n_samples r).
         m r ! i = 1 \<and>
         y_open_loop r ! (i + 1) =
           (1 - Ts r / tau notebook_config) * y_open_loop r ! i +
           (Ts r / tau notebook_config) * m r ! i \<and>
         y r ! (i + 1) =
           (1 - Ts r / tau notebook_config) * y r ! i +
           (Ts r / tau notebook_config) * m_cont r ! i"
    by blast
  have "n_samples r = 1000"
    by (simp add: r(2,3) notebook_config_def)
  with r(1,4) valid_notebook_config show ?thesis
    by blast
qed

subsection \<open>C2: the controller updates\<close>

text \<open>
  C2. For every valid configuration and every loop index \<open>i < n_samples\<close>, the final arrays
  satisfy \<open>e[i+1] = y_sp[i+1] - y[i+1]\<close> (the setpoint being the constant 2),
  \<open>int_e[i+1] = int_e[i] + Ts * e[i+1]\<close>, \<open>diff_e[i+1] = (e[i+1] - e[i]) / Ts\<close> and
  \<open>m_cont[i+1] = Kp*e[i+1] + Ki*int_e[i+1] + Kd*diff_e[i+1]\<close>.
\<close>

theorem controller_updates:
  assumes "valid_config c"
  shows "\<exists>r. run_all c g0 = Inr r \<and> Ts r = 1 / Fs c \<and> n_samples r = \<lfloor>Tf c / Ts r\<rfloor> \<and>
           (\<forall>i < nat (n_samples r).
              y_sp r ! (i + 1) = 2 \<and>
              e r ! (i + 1) = y_sp r ! (i + 1) - y r ! (i + 1) \<and>
              int_e r ! (i + 1) = int_e r ! i + Ts r * e r ! (i + 1) \<and>
              diff_e r ! (i + 1) = (e r ! (i + 1) - e r ! i) / Ts r \<and>
              m_cont r ! (i + 1) =
                Kp c * e r ! (i + 1) + Ki c * int_e r ! (i + 1) + Kd c * diff_e r ! (i + 1))"
proof -
  from run_all_spec [OF valid_configD [OF assms], of g0]
  obtain r where r: "run_all c g0 = Inr r" "Ts r = 1 / Fs c" "n_samples r = \<lfloor>Tf c / Ts r\<rfloor>"
      "y_sp r = replicate (nat (n_samples r) + 1) 2" "\<forall>i < nat (n_samples r). recurrence c r i"
    by blast
  have "y_sp r ! (i + 1) = 2" if "i < nat (n_samples r)" for i
    using that by (intro nth_ones [OF r(4)]) simp
  with r show ?thesis
    by (auto simp add: recurrence_def)
qed

theorem controller_updates_witness:
  "valid_config notebook_config \<and>
   (\<exists>r. run_all notebook_config blank = Inr r \<and> n_samples r = 1000 \<and>
      (\<forall>i < nat (n_samples r).
         y_sp r ! (i + 1) = 2 \<and>
         e r ! (i + 1) = y_sp r ! (i + 1) - y r ! (i + 1) \<and>
         int_e r ! (i + 1) = int_e r ! i + Ts r * e r ! (i + 1) \<and>
         diff_e r ! (i + 1) = (e r ! (i + 1) - e r ! i) / Ts r \<and>
         m_cont r ! (i + 1) =
           Kp notebook_config * e r ! (i + 1) + Ki notebook_config * int_e r ! (i + 1) +
           Kd notebook_config * diff_e r ! (i + 1)))"
proof -
  from controller_updates [OF valid_notebook_config, of blank]
  obtain r where r: "run_all notebook_config blank = Inr r"
      "Ts r = 1 / Fs notebook_config" "n_samples r = \<lfloor>Tf notebook_config / Ts r\<rfloor>"
      "\<forall>i < nat (n_samples r).
         y_sp r ! (i + 1) = 2 \<and>
         e r ! (i + 1) = y_sp r ! (i + 1) - y r ! (i + 1) \<and>
         int_e r ! (i + 1) = int_e r ! i + Ts r * e r ! (i + 1) \<and>
         diff_e r ! (i + 1) = (e r ! (i + 1) - e r ! i) / Ts r \<and>
         m_cont r ! (i + 1) =
           Kp notebook_config * e r ! (i + 1) + Ki notebook_config * int_e r ! (i + 1) +
           Kd notebook_config * diff_e r ! (i + 1)"
    by blast
  have "n_samples r = 1000"
    by (simp add: r(2,3) notebook_config_def)
  with r(1,4) valid_notebook_config show ?thesis
    by blast
qed

subsection \<open>C3: when a run fails\<close>



subsection \<open>C4: the lengths of the trajectories and of the time base\<close>

text \<open>
  C4. The arrays have \<open>n_samples + 1\<close> entries, but the time base need not have
  \<open>n_samples\<close>: \<^verbatim>\<open>n_samples\<close> rounds \<open>Tf / Ts\<close> down and \<^verbatim>\<open>np.arange\<close> rounds
  \<open>(Tf - Ti) / Ts\<close> up. With \<open>Fs = 1\<close> and \<open>Tf = 2.5\<close> the run yields \<open>n_samples = 2\<close>,
  arrays of three entries and a time base of three entries, not two. (The notebook's last
  cell plots \<^verbatim>\<open>t\<close> against \<^verbatim>\<open>y_open_loop[1:]\<close>, which has \<open>n_samples\<close> entries.)
\<close>

theorem time_base_one_longer:
  "run_all fractional_config blank =
     Inr \<lparr>Ts = 1, n_samples = 2, t = [0, 1, 2], m = [1, 1, 1],
          m_cont = [0, 101 / 5, - (7201 / 100)],
          y_open_loop = [0, 1 / 2, 3 / 4], y = [0, 0, 101 / 10],
          y_sp = [2, 2, 2], e = [0, 2, - (81 / 10)],
          int_e = [0, 2, - (61 / 10)], diff_e = [0, 2, - (101 / 10)]\<rparr>"
  by (simp add: fractional_config_def run_all_def initialization_def number_of_samples_def
      step_response_eq simulation_def blank_def np_arange_def loop_body_def stmt_defs upt_rec
      numeral_2_eq_2 numeral_3_eq_3)

text \<open>
  What does hold in exact arithmetic: the trajectories have \<open>n_samples + 1\<close> entries for
  every valid configuration; the time base has \<open>\<lceil>(Tf - Ti) / Ts\<rceil>\<close> entries \<open>Ti + i * Ts\<close>,
  which are the \<open>n_samples\<close> values \<open>i * Ts\<close> when \<open>Ti = 0\<close> and \<open>Tf\<close> is a whole multiple of
  \<open>Ts\<close>. In float64 both numbers come from rounded quotients, and they can differ for a
  whole multiple as well (lemma \<open>time_base_float64\<close>).
\<close>

lemma run_all_lengths:
  assumes "valid_config c"
  shows "\<exists>r. run_all c g0 = Inr r \<and> Ts r = 1 / Fs c \<and> n_samples r = \<lfloor>Tf c / Ts r\<rfloor> \<and>
           length (y_open_loop r) = nat (n_samples r) + 1 \<and>
           length (y r) = nat (n_samples r) + 1 \<and>
           length (m_cont r) = nat (n_samples r) + 1 \<and>
           length (e r) = nat (n_samples r) + 1 \<and>
           length (int_e r) = nat (n_samples r) + 1 \<and>
           length (diff_e r) = nat (n_samples r) + 1 \<and>
           length (t r) = nat \<lceil>(Tf c - Ti c) / Ts r\<rceil> \<and>
           (\<forall>i < length (t r). t r ! i = Ti c + real i * Ts r)"
proof -
  from run_all_spec [OF valid_configD [OF assms], of g0]
  obtain r where r: "run_all c g0 = Inr r" "Ts r = 1 / Fs c" "n_samples r = \<lfloor>Tf c / Ts r\<rfloor>"
      "t r = np_arange (Ti c) (Tf c) (Ts r)" "sized (nat (n_samples r) + 1) r"
    by blast
  have "length (t r) = nat \<lceil>(Tf c - Ti c) / Ts r\<rceil>"
    by (simp add: r(4) np_arange_def)
  moreover have "\<forall>i < length (t r). t r ! i = Ti c + real i * Ts r"
    by (simp add: r(4) np_arange_def)
  ultimately show ?thesis
    using r by (simp add: sized_def)
qed

lemma time_base_whole_multiple:
  assumes "valid_config c" "Ti c = 0" "Tf c / (1 / Fs c) \<in> \<int>"
  shows "\<exists>r. run_all c g0 = Inr r \<and> length (t r) = nat (n_samples r) \<and>
           (\<forall>i < nat (n_samples r). t r ! i = real i * Ts r)"
proof -
  from run_all_lengths [OF assms(1), of g0]
  obtain r where r: "run_all c g0 = Inr r" "Ts r = 1 / Fs c" "n_samples r = \<lfloor>Tf c / Ts r\<rfloor>"
      "length (t r) = nat \<lceil>(Tf c - Ti c) / Ts r\<rceil>"
      "\<forall>i < length (t r). t r ! i = Ti c + real i * Ts r"
    by blast
  have "\<lceil>Tf c / Ts r\<rceil> = \<lfloor>Tf c / Ts r\<rfloor>"
    using assms(3) unfolding r(2) by (auto elim!: Ints_cases)
  then have "length (t r) = nat (n_samples r)"
    by (simp add: r(3,4) assms(2))
  with r(1,5) assms(2) show ?thesis
    by auto
qed

lemma time_base_notebook_config:
  "\<exists>r. run_all notebook_config g0 = Inr r \<and> n_samples r = 1000 \<and> length (t r) = 1000 \<and>
      (\<forall>i < 1000. t r ! i = real i * (1 / 100))"
proof -
  have whole: "Tf notebook_config / (1 / Fs notebook_config) \<in> \<int>"
    by (simp add: notebook_config_def)
  have ti: "Ti notebook_config = 0"
    by (simp add: notebook_config_def)
  from time_base_whole_multiple [OF valid_notebook_config ti whole, of g0]
  obtain r where r: "run_all notebook_config g0 = Inr r" "length (t r) = nat (n_samples r)"
      "\<forall>i < nat (n_samples r). t r ! i = real i * Ts r"
    by blast
  from run_all_spec [OF valid_configD [OF valid_notebook_config], of g0] r(1)
  have *: "Ts r = 1 / Fs notebook_config" "n_samples r = \<lfloor>Tf notebook_config / Ts r\<rfloor>"
    by auto
  have ts: "Ts r = 1 / 100"
    by (simp add: * notebook_config_def)
  have "n_samples r = 1000"
    by (simp add: *(2) ts notebook_config_def)
  with r ts show ?thesis
    by auto
qed

subsection \<open>C5: the initial conditions\<close>

text \<open>
  C5. For every valid configuration, index 0 of each of the six computed trajectories is
  zero: \<open>y_open_loop[0]\<close>, \<open>y[0]\<close>, \<open>e[0]\<close>, \<open>int_e[0]\<close>, \<open>diff_e[0]\<close> and the controller output
  \<open>m_cont[0]\<close>. The setpoint trajectory \<open>y_sp\<close> holds its constant value 2 at every index,
  so also at index 0. (The array \<open>m\<close> is not a trajectory of the simulation but its
  open-loop forcing input, the constant 1.)
\<close>

theorem initial_conditions:
  assumes "valid_config c"
  shows "\<exists>r. run_all c g0 = Inr r \<and>
           y_open_loop r ! 0 = 0 \<and> y r ! 0 = 0 \<and> e r ! 0 = 0 \<and> int_e r ! 0 = 0 \<and>
           diff_e r ! 0 = 0 \<and> m_cont r ! 0 = 0 \<and>
           y_sp r = replicate (nat (n_samples r) + 1) 2 \<and> y_sp r ! 0 = 2 \<and>
           m r = replicate (nat (n_samples r) + 1) 1"
proof -
  from run_all_spec [OF valid_configD [OF assms], of g0]
  obtain r where r: "run_all c g0 = Inr r"
      "m r = replicate (nat (n_samples r) + 1) 1"
      "y_sp r = replicate (nat (n_samples r) + 1) 2"
      "y_open_loop r ! 0 = 0" "y r ! 0 = 0" "e r ! 0 = 0" "int_e r ! 0 = 0"
      "diff_e r ! 0 = 0" "m_cont r ! 0 = 0"
    by blast
  have "y_sp r ! 0 = 2"
    by (intro nth_ones [OF r(3)]) simp
  with r show ?thesis
    by blast
qed

theorem initial_conditions_witness:
  "valid_config notebook_config \<and>
   (\<exists>r. run_all notebook_config blank = Inr r \<and>
           y_open_loop r ! 0 = 0 \<and> y r ! 0 = 0 \<and> e r ! 0 = 0 \<and> int_e r ! 0 = 0 \<and>
           diff_e r ! 0 = 0 \<and> m_cont r ! 0 = 0 \<and> y_sp r ! 0 = 2)"
  using initial_conditions [OF valid_notebook_config, of blank] valid_notebook_config
  by blast

subsection \<open>C6: no state is carried from one run to the next\<close>

text \<open>
  C6. The result of running the notebook does not depend on what the kernel held before:
  from any two earlier states \<open>g\<close> and \<open>g'\<close>, the same configuration gives the same result,
  error or trajectories. In particular a second run, started from the globals the first
  one left, repeats the first. Every global is assigned before it is read.
\<close>

theorem run_all_forgets: "run_all c g = run_all c g'"
  by (simp add: run_all_unfold)

subsection \<open>C7: causality of the recurrence\<close>

text \<open>
  C7. Take two executions of the simulation cell with the same \<open>Ts \<noteq> 0\<close>, \<open>tau\<close> and gains,
  from allocated arrays with the same initial conditions (index 0), whose inputs, the
  forcing input \<open>m\<close> and the setpoint \<open>y_sp\<close>, agree at every index below \<open>k\<close>; the
  inputs from index \<open>k\<close> on and the numbers of samples may differ, as long as both runs
  reach index \<open>k - 1\<close>. Then both executions succeed and all six computed trajectories
  agree at every index below \<open>k\<close>.
\<close>

theorem causality:
  assumes "tau c \<noteq> 0" and "Ts g \<noteq> 0"
    and "sized (nat (n_samples g) + 1) g" and "sized (nat (n_samples g') + 1) g'"
    and "Ts g' = Ts g" and "same_at 0 g g'"
    and "k \<le> nat (n_samples g) + 1" and "k \<le> nat (n_samples g') + 1"
    and "\<forall>j<k. m g' ! j = m g ! j \<and> y_sp g' ! j = y_sp g ! j"
  shows "\<exists>r r'. simulation c g = Inr r \<and> simulation c g' = Inr r' \<and>
           (\<forall>j<k. y_open_loop r' ! j = y_open_loop r ! j \<and> y r' ! j = y r ! j \<and>
                   e r' ! j = e r ! j \<and> int_e r' ! j = int_e r ! j \<and>
                   diff_e r' ! j = diff_e r ! j \<and> m_cont r' ! j = m_cont r ! j)"
proof -
  from simulation_spec [OF assms(1,3)] obtain r where r: "simulation c g = Inr r"
      "same_inputs g r" "same_at 0 g r" "\<forall>i < nat (n_samples g). recurrence c r i"
    by blast
  from simulation_spec [OF assms(1,4)] obtain r' where r': "simulation c g' = Inr r'"
      "same_inputs g' r'" "same_at 0 g' r'" "\<forall>i < nat (n_samples g'). recurrence c r' i"
    by blast
  have ts: "Ts r' = Ts r"
    using r(2) r'(2) assms(5) by (simp add: same_inputs_def)
  have init: "same_at 0 r r'"
    using r(3) r'(3) assms(6) by (simp add: same_at_def)
  have inputs: "\<forall>j<k. m r' ! j = m r ! j \<and> y_sp r' ! j = y_sp r ! j"
    using r(2) r'(2) assms(9) by (simp add: same_inputs_def)
  have "same_at j r r'" if "j < k" for j
    using r(4) r'(4) ts init assms(7,8) inputs that by (rule agree_below)
  then have "\<forall>j<k. y_open_loop r' ! j = y_open_loop r ! j \<and> y r' ! j = y r ! j \<and>
                   e r' ! j = e r ! j \<and> int_e r' ! j = int_e r ! j \<and>
                   diff_e r' ! j = diff_e r ! j \<and> m_cont r' ! j = m_cont r ! j"
    by (simp add: same_at_def)
  with r(1) r'(1) show ?thesis
    by blast
qed

theorem causality_witness:
  "\<exists>r r'. simulation small_config allocated_2 = Inr r \<and>
      simulation small_config (allocated_2\<lparr>m := [1, 1, 5], y_sp := [2, 2, 7]\<rparr>) = Inr r' \<and>
      (\<forall>j<2. y_open_loop r' ! j = y_open_loop r ! j \<and> y r' ! j = y r ! j \<and>
              e r' ! j = e r ! j \<and> int_e r' ! j = int_e r ! j \<and>
              diff_e r' ! j = diff_e r ! j \<and> m_cont r' ! j = m_cont r ! j) \<and>
      e r' ! 2 \<noteq> e r ! 2"
proof -
  let ?g' = "allocated_2\<lparr>m := [1, 1, 5], y_sp := [2, 2, 7]\<rparr>"
  have tau: "tau small_config \<noteq> 0"
    by (simp add: small_config_def)
  have ts0: "Ts allocated_2 \<noteq> 0"
    by (simp add: allocated_2_def)
  have sz: "sized (nat (n_samples allocated_2) + 1) allocated_2"
      "sized (nat (n_samples ?g') + 1) ?g'"
    by (simp_all add: sized_def allocated_2_def)
  have ts: "Ts ?g' = Ts allocated_2"
    by simp
  have init: "same_at 0 allocated_2 ?g'"
    by (simp add: same_at_def)
  have k: "2 \<le> nat (n_samples allocated_2) + 1" "2 \<le> nat (n_samples ?g') + 1"
    by (simp_all add: allocated_2_def)
  have inputs: "\<forall>j<2. m ?g' ! j = m allocated_2 ! j \<and> y_sp ?g' ! j = y_sp allocated_2 ! j"
    by (simp add: allocated_2_def less_Suc_eq numeral_2_eq_2)
  from causality [OF tau ts0 sz ts init k inputs]
  obtain r r' where rr: "simulation small_config allocated_2 = Inr r"
      "simulation small_config ?g' = Inr r'"
      "\<forall>j<2. y_open_loop r' ! j = y_open_loop r ! j \<and> y r' ! j = y r ! j \<and>
              e r' ! j = e r ! j \<and> int_e r' ! j = int_e r ! j \<and>
              diff_e r' ! j = diff_e r ! j \<and> m_cont r' ! j = m_cont r ! j"
    by blast
  have "e r ! 2 = - (81 / 10)"
    using rr(1)
    by (auto simp add: simulation_def allocated_2_def small_config_def loop_body_def stmt_defs
        upt_rec numeral_2_eq_2)
  moreover have "e r' ! 2 = - (31 / 10)"
    using rr(2)
    by (auto simp add: simulation_def allocated_2_def small_config_def loop_body_def stmt_defs
        upt_rec numeral_2_eq_2)
  ultimately have "e r' ! 2 \<noteq> e r ! 2"
    by simp
  with rr show ?thesis
    by blast
qed

text \<open>
  The same for two whole runs of the notebook that differ in the final time \<open>Tf\<close> (and so
  in the number of samples) or in \<open>Ti\<close>: the trajectories agree at every index both runs
  reach.
\<close>

lemma run_all_agree_below:
  assumes "valid_config c" "valid_config c'"
    and "Fs c' = Fs c" "tau c' = tau c" "Kp c' = Kp c" "Ki c' = Ki c" "Kd c' = Kd c"
  shows "\<exists>r r'. run_all c g = Inr r \<and> run_all c' g' = Inr r' \<and>
           (\<forall>j. j \<le> nat (n_samples r) \<and> j \<le> nat (n_samples r') \<longrightarrow>
              y_open_loop r' ! j = y_open_loop r ! j \<and> y r' ! j = y r ! j \<and>
              e r' ! j = e r ! j \<and> int_e r' ! j = int_e r ! j \<and>
              diff_e r' ! j = diff_e r ! j \<and> m_cont r' ! j = m_cont r ! j)"
proof -
  from run_all_spec [OF valid_configD [OF assms(1)], of g]
  obtain r where r: "run_all c g = Inr r" "Ts r = 1 / Fs c"
      "m r = replicate (nat (n_samples r) + 1) 1" "y_sp r = replicate (nat (n_samples r) + 1) 2"
      "y_open_loop r ! 0 = 0" "y r ! 0 = 0" "e r ! 0 = 0" "int_e r ! 0 = 0"
      "diff_e r ! 0 = 0" "m_cont r ! 0 = 0" "\<forall>i < nat (n_samples r). recurrence c r i"
    by blast
  from run_all_spec [OF valid_configD [OF assms(2)], of g']
  obtain r' where r': "run_all c' g' = Inr r'" "Ts r' = 1 / Fs c'"
      "m r' = replicate (nat (n_samples r') + 1) 1"
      "y_sp r' = replicate (nat (n_samples r') + 1) 2"
      "y_open_loop r' ! 0 = 0" "y r' ! 0 = 0" "e r' ! 0 = 0" "int_e r' ! 0 = 0"
      "diff_e r' ! 0 = 0" "m_cont r' ! 0 = 0" "\<forall>i < nat (n_samples r'). recurrence c' r' i"
    by blast
  define k where "k = min (nat (n_samples r)) (nat (n_samples r')) + 1"
  have rec': "\<forall>i < nat (n_samples r'). recurrence c r' i"
    using r'(11) recurrence_same_parameters [OF assms(4,5,6,7)] by simp
  have ts: "Ts r' = Ts r"
    by (simp only: r(2) r'(2) assms(3))
  have init: "same_at 0 r r'"
    by (simp add: same_at_def r(5-10) r'(5-10))
  have k: "k \<le> nat (n_samples r) + 1" "k \<le> nat (n_samples r') + 1"
    by (simp_all add: k_def)
  have inputs: "\<forall>j<k. m r' ! j = m r ! j \<and> y_sp r' ! j = y_sp r ! j"
  proof (intro allI impI conjI)
    fix j assume "j < k"
    then have j: "j < nat (n_samples r) + 1" "j < nat (n_samples r') + 1"
      using k by simp_all
    show "m r' ! j = m r ! j"
      using nth_ones [OF r(3) j(1)] nth_ones [OF r'(3) j(2)] by simp
    show "y_sp r' ! j = y_sp r ! j"
      using nth_ones [OF r(4) j(1)] nth_ones [OF r'(4) j(2)] by simp
  qed
  have below: "same_at j r r'" if "j < k" for j
    using r(11) rec' ts init k inputs that by (rule agree_below)
  have "\<forall>j. j \<le> nat (n_samples r) \<and> j \<le> nat (n_samples r') \<longrightarrow>
              y_open_loop r' ! j = y_open_loop r ! j \<and> y r' ! j = y r ! j \<and>
              e r' ! j = e r ! j \<and> int_e r' ! j = int_e r ! j \<and>
              diff_e r' ! j = diff_e r ! j \<and> m_cont r' ! j = m_cont r ! j"
  proof (intro allI impI)
    fix j assume "j \<le> nat (n_samples r) \<and> j \<le> nat (n_samples r')"
    then have "j < k"
      unfolding k_def by linarith
    then have "same_at j r r'"
      by (rule below)
    then show "y_open_loop r' ! j = y_open_loop r ! j \<and> y r' ! j = y r ! j \<and>
              e r' ! j = e r ! j \<and> int_e r' ! j = int_e r ! j \<and>
              diff_e r' ! j = diff_e r ! j \<and> m_cont r' ! j = m_cont r ! j"
      by (simp add: same_at_def)
  qed
  with r(1) r'(1) show ?thesis
    by blast
qed

subsection \<open>C8: a step that is not shorter than the time constant\<close>



subsection \<open>C9: the steady state of the stable open loop\<close>

text \<open>
  C9, as the specification states it, does not hold of the floats the notebook computes:
  the closed form \<open>1 - (1 - Ts/tau)^k\<close> is an identity of exact arithmetic. With \<open>Ts = 1\<close> and
  \<open>tau = 3\<close> the first value the loop assigns, \<^verbatim>\<open>y_open_loop[1]\<close>, is the float nearest to
  \<open>1/3\<close>, which is neither \<open>1 - (1 - 1/3)^1\<close> nor what float64 gives for
  \<^verbatim>\<open>1 - (1 - Ts/tau)\<close>, 0.33333333333333326.
\<close>

theorem closed_form_rounded:
  "\<exists>r. run_all64 (float64_platform 1000) third_config blank64 = Inr r \<and>
      Ts64 r = Finite 1 \<and> lit (float64_platform 1000) (tau third_config) = Finite 3 \<and>
      n_samples64 r = 2 \<and>
      y_open_loop64 r ! 1 = Finite (6004799503160661 / 2 ^ 54) \<and>
      y_open_loop64 r ! 1 \<noteq> Finite (1 - (1 - 1 / 3) ^ 1) \<and>
      y_open_loop64 r ! 1 \<noteq>
        fsub binary64 (Finite 1) (coefficient (float64_platform 1000) third_config)"
proof -
  let ?P = "float64_platform 1000"
  have ts: "Ts_of ?P third_config = Finite 1"
    by (simp add: Ts_of_def lit_def third_config_fields)
  have q: "quotient_of ?P third_config = Finite 2"
    by (simp add: quotient_of_def ts lit_def third_config_fields binary64_numeral)
  have n: "n_of ?P third_config = 2"
    by (simp add: n_of_def q)
  have tau: "lit ?P (tau third_config) = Finite 3"
    by (simp add: lit_def third_config_fields binary64_numeral)
  have fs: "lit ?P (Fs third_config) = Finite 1"
    by (simp add: lit_def third_config_fields)
  have v: "valid_config64 ?P third_config"
    by (simp add: valid_config64_def ts q n tau fs)
  have "\<exists>ts. arange ?P (lit ?P (Ti third_config)) (lit ?P (Tf third_config))
          (Ts_of ?P third_config) = Inr ts"
    by (simp add: ts lit_def third_config_fields np_arange64_def py_truediv_def fsub_def
        binary64_numeral)
  then have mem: "enough_memory ?P third_config"
    by (simp add: enough_memory_def n)
  have al: "binary64 (1 / 3) = Finite (6004799503160661 / 2 ^ 54)"
    by (rule binary64_third)
  have ga: "binary64 (1 + - (6004799503160661 / 2 ^ 54)) = Finite (6004799503160662 / 2 ^ 53)"
    by (subst binary64_eq [where ex = "- 1"]) (simp_all add: round_even_eval)
  have al': "binary64 (6004799503160661 / 2 ^ 54) = Finite (6004799503160661 / 2 ^ 54)"
    by (subst binary64_eq [where ex = "- 2"]) (simp_all add: round_even_numeral)
  have cf: "binary64 (1 + - (6004799503160662 / 2 ^ 53)) = Finite (3002399751580330 / 2 ^ 53)"
    by (subst binary64_eq [where ex = "- 2"]) (simp_all add: round_even_numeral)
  have co: "coefficient ?P third_config = Finite (6004799503160662 / 2 ^ 53)"
    using al ga by (simp add: coefficient_def ts tau fsub_def)
  have step: "open_loop_step ?P third_config (Finite 1) (Finite 0) (Finite 1) =
      Finite (6004799503160661 / 2 ^ 54)"
    using al ga al' by (simp add: open_loop_step_def tau fsub_def)
  from run_all64_valid [OF v mem, of blank64]
  obtain r where r: "run_all64 ?P third_config blank64 = Inr r"
      "Ts64 r = Ts_of ?P third_config" "n_samples64 r = n_of ?P third_config"
      "y_open_loop64 r ! 0 = Finite 0"
      "\<forall>i < nat (n_of ?P third_config). y_open_loop64 r ! (i + 1) =
              open_loop_step ?P third_config (Ts_of ?P third_config) (y_open_loop64 r ! i)
                (Finite 1)"
    by blast
  have "y_open_loop64 r ! (0 + 1) =
      open_loop_step ?P third_config (Ts_of ?P third_config) (y_open_loop64 r ! 0) (Finite 1)"
    using r(5) [unfolded n, rule_format, of 0] by simp
  then have y1: "y_open_loop64 r ! 1 = Finite (6004799503160661 / 2 ^ 54)"
    by (simp add: ts r(4) step)
  have "fsub binary64 (Finite 1) (coefficient ?P third_config) =
      Finite (3002399751580330 / 2 ^ 53)"
    using cf by (simp add: co fsub_def)
  with y1 r(1,2,3) ts n tau show ?thesis
    by (intro exI [of _ r] conjI) simp_all
qed

text \<open>
  C9, amended. Let \<open>u\<close> bound the rounding error of a result below 4 in magnitude (\<open>2^-52\<close>
  for float64). For every valid configuration with \<open>6 u \<le> Ts/tau \<le> 1 - 2 u\<close> the run
  succeeds and every open-loop value is finite and within \<open>(1 - s)^k + 4 u / s\<close> of 1, where
  \<open>s = Ts/tau - 2 u\<close>; the first term is at most \<open>exp (- k s)\<close> and vanishes as \<open>k * Ts / tau\<close>
  grows, the second is the rounding error that the passes accumulate. For the values the
  notebook assigns the final value \<^verbatim>\<open>y_open_loop[1000]\<close> is within \<open>exp (-4.99) + 1.8e-13\<close>
  of 1.
\<close>

theorem open_loop_settles:
  assumes "valid_config64 P c" "enough_memory P c" "accurate P u"
    and "Ts_of P c = Finite T" "lit P (tau c) = Finite s"
    and "6 * u \<le> T / s" "T / s \<le> 1 - 2 * u"
  shows "\<exists>r. run_all64 P c g0 = Inr r \<and> n_samples64 r = n_of P c \<and>
           (\<forall>k \<le> nat (n_of P c). \<exists>v. y_open_loop64 r ! k = Finite v \<and>
              \<bar>1 - v\<bar> \<le> (1 - (T / s - 2 * u)) ^ k + 4 * u / (T / s - 2 * u) \<and>
              \<bar>1 - v\<bar> \<le> exp (- (real k * (T / s - 2 * u))) + 4 * u / (T / s - 2 * u))"
proof -
  define sg where "sg = T / s - 2 * u"
  have u: "0 \<le> u"
    using assms(3) by (rule accurate_nonneg)
  have s: "0 < s" and T: "0 < T"
    using assms(1) by (simp_all add: valid_config64_def assms(4,5))
  then have "0 < T / s"
    by simp
  with assms(6,7) u have sg: "0 < sg" "4 * u \<le> sg" "sg < 1 \<or> u = 0" "sg \<le> 1" "u \<le> 1 / 8"
    unfolding sg_def by linarith+
  from open_loop_coefficients [OF assms(3) s assms(6,7)]
  obtain al ga where co: "fdiv (rnd P) (Finite T) (Finite s) = Finite al"
      "fsub (rnd P) (Finite 1) (Finite al) = Finite ga"
      "0 \<le> ga" "ga \<le> 1 - sg" "0 \<le> al" "al \<le> 1" "\<bar>ga + al - 1\<bar> \<le> u"
    unfolding sg_def by blast
  from run_all64_valid [OF assms(1,2), of g0]
  obtain r where r: "run_all64 P c g0 = Inr r" "n_samples64 r = n_of P c"
      "y_open_loop64 r ! 0 = Finite 0"
      "\<forall>i < nat (n_of P c). y_open_loop64 r ! (i + 1) =
              open_loop_step P c (Ts_of P c) (y_open_loop64 r ! i) (Finite 1)"
    by blast
  have rec: "\<forall>i < nat (n_of P c). y_open_loop64 r ! (i + 1) =
      fadd (rnd P) (fmul (rnd P) (Finite ga) (y_open_loop64 r ! i))
                   (fmul (rnd P) (Finite al) (Finite 1))"
    using r(4) by (simp only: open_loop_step_def assms(4,5) co(1,2))
  have "\<exists>v. y_open_loop64 r ! k = Finite v \<and>
          \<bar>1 - v\<bar> \<le> (1 - sg) ^ k + 4 * u / sg \<and>
          \<bar>1 - v\<bar> \<le> exp (- (real k * sg)) + 4 * u / sg"
    if k: "k \<le> nat (n_of P c)" for k
  proof -
    from settling_bound [where ys = "\<lambda>k. y_open_loop64 r ! k",
        OF assms(3) sg(5) co(3,4,5,6,7) sg(1,2) r(3) rec k]
    obtain v where v: "y_open_loop64 r ! k = Finite v"
        "\<bar>1 - v\<bar> \<le> (1 - sg) ^ k * (1 - 4 * u / sg) + 4 * u / sg"
      by blast
    have p: "0 \<le> (1 - sg) ^ k"
      using sg(4) by simp
    have "4 * u / sg \<le> 1" "0 \<le> 4 * u / sg"
      using sg(1,2) u by simp_all
    then have "(1 - sg) ^ k * (1 - 4 * u / sg) \<le> (1 - sg) ^ k * 1"
      using p by (intro mult_left_mono) simp_all
    with v(2) have pow: "\<bar>1 - v\<bar> \<le> (1 - sg) ^ k + 4 * u / sg"
      by simp
    have "(1 - sg) ^ k \<le> exp (- (real k * sg))"
    proof (cases "sg < 1")
      case True
      with sg(1) show ?thesis
        by (rule geometric_decay(2))
    next
      case False
      with sg(4) have "sg = 1"
        by simp
      then show ?thesis
        by (cases k) simp_all
    qed
    with pow have "\<bar>1 - v\<bar> \<le> exp (- (real k * sg)) + 4 * u / sg"
      by simp
    with v(1) pow show ?thesis
      by blast
  qed
  with r(1,2) show ?thesis
    unfolding sg_def by blast
qed

theorem open_loop_settles_witness:
  "valid_config64 (float64_platform 2000) notebook_config \<and>
   enough_memory (float64_platform 2000) notebook_config \<and>
   accurate (float64_platform 2000) (1 / 2 ^ 52) \<and>
   Ts_of (float64_platform 2000) notebook_config = Finite (5764607523034235 / 2 ^ 59) \<and>
   lit (float64_platform 2000) (tau notebook_config) = Finite 2 \<and>
   (\<exists>r. run_all64 (float64_platform 2000) notebook_config blank64 = Inr r \<and>
      n_samples64 r = 1000 \<and>
      (\<exists>v. y_open_loop64 r ! 1000 = Finite v \<and>
         \<bar>1 - v\<bar> \<le> exp (- (1000 * (5764607523034235 / 2 ^ 60 - 1 / 2 ^ 51))) +
                    (1 / 2 ^ 50) / (5764607523034235 / 2 ^ 60 - 1 / 2 ^ 51)))"
proof -
  let ?P = "float64_platform 2000"
  let ?T = "5764607523034235 / 2 ^ 59 :: real"
  have ts: "Ts_of ?P notebook_config = Finite ?T"
    by (rule Ts_of_notebook_config)
  have q: "quotient_of ?P notebook_config = Finite 1000"
    by (rule quotient_of_notebook_config)
  have n: "n_of ?P notebook_config = 1000"
    by (simp add: n_of_def q)
  have tau: "lit ?P (tau notebook_config) = Finite 2"
    by (simp add: lit_def notebook_config_fields binary64_numeral)
  have fs: "lit ?P (Fs notebook_config) = Finite 100"
    by (simp add: lit_def notebook_config_fields binary64_numeral)
  have v: "valid_config64 ?P notebook_config"
    by (simp add: valid_config64_def ts q n tau fs)
  have "binary64 (10 / ?T) = Finite 1000"
    using q by (simp add: quotient_of_def ts lit_def notebook_config_fields binary64_numeral)
  then have "\<exists>ts. arange ?P (lit ?P (Ti notebook_config)) (lit ?P (Tf notebook_config))
          (Ts_of ?P notebook_config) = Inr ts"
    by (simp add: ts lit_def notebook_config_fields np_arange64_def py_truediv_def fsub_def
        binary64_numeral)
  then have mem: "enough_memory ?P notebook_config"
    by (simp add: enough_memory_def n)
  have acc: "accurate ?P (1 / 2 ^ 52)"
    by (rule accurate_float64)
  have lo: "6 * (1 / 2 ^ 52) \<le> ?T / 2" and hi: "?T / 2 \<le> 1 - 2 * (1 / 2 ^ 52)"
    by simp_all
  from open_loop_settles [OF v mem acc ts tau lo hi, of blank64]
  obtain r where r: "run_all64 ?P notebook_config blank64 = Inr r"
      "n_samples64 r = n_of ?P notebook_config"
      "\<forall>k \<le> nat (n_of ?P notebook_config). \<exists>v. y_open_loop64 r ! k = Finite v \<and>
         \<bar>1 - v\<bar> \<le> (1 - (?T / 2 - 2 * (1 / 2 ^ 52))) ^ k
                      + 4 * (1 / 2 ^ 52) / (?T / 2 - 2 * (1 / 2 ^ 52)) \<and>
         \<bar>1 - v\<bar> \<le> exp (- (real k * (?T / 2 - 2 * (1 / 2 ^ 52))))
                      + 4 * (1 / 2 ^ 52) / (?T / 2 - 2 * (1 / 2 ^ 52))"
    by blast
  from r(3) obtain w where w: "y_open_loop64 r ! 1000 = Finite w"
      "\<bar>1 - w\<bar> \<le> exp (- (real 1000 * (?T / 2 - 2 * (1 / 2 ^ 52))))
                      + 4 * (1 / 2 ^ 52) / (?T / 2 - 2 * (1 / 2 ^ 52))"
    unfolding n by fastforce
  have "\<bar>1 - w\<bar> \<le> exp (- (1000 * (5764607523034235 / 2 ^ 60 - 1 / 2 ^ 51))) +
                    (1 / 2 ^ 50) / (5764607523034235 / 2 ^ 60 - 1 / 2 ^ 51)"
    using w(2) by simp
  with w(1) r(1,2) n v mem acc ts tau show ?thesis
    by (intro conjI exI [of _ r] exI [of _ w]) simp_all
qed

subsection \<open>C10: the open-loop output does not depend on the controller\<close>

text \<open>
  C10. Take two executions of the simulation cell from allocated arrays with the same
  \<open>Ts\<close>, \<open>tau\<close>, \<open>n_samples\<close>, forcing input \<open>m\<close> and initial open-loop value. Whatever the
  gains \<open>Kp\<close>, \<open>Ki\<close>, \<open>Kd\<close> and the setpoint arrays \<open>y_sp\<close> of the two are, both succeed
  and their open-loop trajectories are the same list.
\<close>

theorem open_loop_noninterference:
  assumes "tau c \<noteq> 0" and "tau c' = tau c"
    and "sized (nat (n_samples g) + 1) g" and "sized (nat (n_samples g') + 1) g'"
    and "Ts g' = Ts g" and "n_samples g' = n_samples g" and "m g' = m g"
    and "y_open_loop g' ! 0 = y_open_loop g ! 0"
  shows "\<exists>r r'. simulation c g = Inr r \<and> simulation c' g' = Inr r' \<and>
           y_open_loop r' = y_open_loop r"
proof -
  define n where "n = nat (n_samples g)"
  have tau': "tau c' \<noteq> 0"
    using assms(1,2) by simp
  from simulation_spec [OF assms(1,3)] obtain r where r: "simulation c g = Inr r"
      "sized (n + 1) r" "same_inputs g r" "same_at 0 g r" "\<forall>i<n. recurrence c r i"
    unfolding n_def by blast
  from simulation_spec [OF tau' assms(4)] obtain r' where r': "simulation c' g' = Inr r'"
      "sized (n + 1) r'" "same_inputs g' r'" "same_at 0 g' r'" "\<forall>i<n. recurrence c' r' i"
    unfolding n_def assms(6) by blast
  have eq: "Ts r' = Ts r" "m r' = m r" "y_open_loop r' ! 0 = y_open_loop r ! 0"
    using r(3,4) r'(3,4) assms(5,7,8) by (simp_all add: same_inputs_def same_at_def)
  have len: "length (y_open_loop r') = n + 1" "length (y_open_loop r) = n + 1"
    using r(2) r'(2) by (simp_all add: sized_def)
  have "y_open_loop r' = y_open_loop r"
  proof (rule nth_equalityI)
    show "length (y_open_loop r') = length (y_open_loop r)"
      by (simp add: len)
  next
    fix j assume "j < length (y_open_loop r')"
    then have "j \<le> n" by (simp add: len)
    with r(5) r'(5) assms(2) eq show "y_open_loop r' ! j = y_open_loop r ! j"
      by (rule open_loop_determined)
  qed
  with r(1) r'(1) show ?thesis
    by blast
qed

theorem open_loop_noninterference_witness:
  "\<exists>r r'. simulation small_config allocated_2 = Inr r \<and>
      simulation (small_config\<lparr>Kp := 1, Ki := 0, Kd := 0\<rparr>) (allocated_2\<lparr>y_sp := [3, 3, 3]\<rparr>)
        = Inr r' \<and>
      y_open_loop r' = y_open_loop r \<and> y_open_loop r = [0, 1 / 2, 3 / 4] \<and> y r' \<noteq> y r"
proof -
  let ?c' = "small_config\<lparr>Kp := 1, Ki := 0, Kd := 0\<rparr>"
  let ?g' = "allocated_2\<lparr>y_sp := [3, 3, 3]\<rparr>"
  have tau: "tau small_config \<noteq> 0" "tau ?c' = tau small_config"
    by (simp_all add: small_config_def)
  have sz: "sized (nat (n_samples allocated_2) + 1) allocated_2"
      "sized (nat (n_samples ?g') + 1) ?g'"
    by (simp_all add: sized_def allocated_2_def)
  have same: "Ts ?g' = Ts allocated_2" "n_samples ?g' = n_samples allocated_2"
      "m ?g' = m allocated_2" "y_open_loop ?g' ! 0 = y_open_loop allocated_2 ! 0"
    by simp_all
  from open_loop_noninterference [OF tau sz same]
  obtain r r' where rr: "simulation small_config allocated_2 = Inr r"
      "simulation ?c' ?g' = Inr r'" "y_open_loop r' = y_open_loop r"
    by blast
  have "y_open_loop r = [0, 1 / 2, 3 / 4]" "y r = [0, 0, 101 / 10]"
    using rr(1)
    by (auto simp add: simulation_def allocated_2_def small_config_def loop_body_def stmt_defs
        upt_rec numeral_2_eq_2)
  moreover have "y r' = [0, 0, 3 / 2]"
    using rr(2)
    by (auto simp add: simulation_def allocated_2_def small_config_def loop_body_def stmt_defs
        upt_rec numeral_2_eq_2)
  ultimately have "y_open_loop r = [0, 1 / 2, 3 / 4]" "y r' \<noteq> y r"
    by simp_all
  with rr show ?thesis
    by blast
qed

text \<open>
  The same for two whole runs of the notebook whose configurations differ in the gains (the
  setpoint is the literal 2 of the step-response cell, and \<open>Ti\<close> only enters the time base).
\<close>

lemma run_all_open_loop_gains:
  assumes "valid_config c" "Fs c' = Fs c" "Tf c' = Tf c" "tau c' = tau c"
  shows "\<exists>r r'. run_all c g = Inr r \<and> run_all c' g' = Inr r' \<and>
           y_open_loop r' = y_open_loop r"
proof -
  have v': "valid_config c'"
    using assms(1) unfolding valid_config_def assms(2,3,4) .
  from run_all_open_loop [OF assms(1), of g] obtain r where r: "run_all c g = Inr r"
      "Ts r = 1 / Fs c" "n_samples r = \<lfloor>Tf c / Ts r\<rfloor>" "sized (nat (n_samples r) + 1) r"
      "\<forall>k \<le> nat (n_samples r). y_open_loop r ! k = 1 - (1 - Ts r / tau c) ^ k"
    by blast
  from run_all_open_loop [OF v', of g'] obtain r' where r': "run_all c' g' = Inr r'"
      "Ts r' = 1 / Fs c'" "n_samples r' = \<lfloor>Tf c' / Ts r'\<rfloor>"
      "sized (nat (n_samples r') + 1) r'"
      "\<forall>k \<le> nat (n_samples r'). y_open_loop r' ! k = 1 - (1 - Ts r' / tau c') ^ k"
    by blast
  have ts: "Ts r' = Ts r"
    by (simp only: r(2) r'(2) assms(2))
  have n: "n_samples r' = n_samples r"
    by (simp only: r(3) r'(3) ts assms(3))
  have len: "length (y_open_loop r) = nat (n_samples r) + 1"
      "length (y_open_loop r') = nat (n_samples r) + 1"
    using r(4) r'(4) by (simp_all add: sized_def n)
  have "y_open_loop r' = y_open_loop r"
  proof (rule nth_equalityI)
    show "length (y_open_loop r') = length (y_open_loop r)"
      by (simp only: len)
  next
    fix j assume "j < length (y_open_loop r')"
    then have j: "j \<le> nat (n_samples r)"
      by (simp add: len)
    then have "y_open_loop r ! j = 1 - (1 - Ts r / tau c) ^ j"
      using r(5) by blast
    moreover have "y_open_loop r' ! j = 1 - (1 - Ts r' / tau c') ^ j"
      using r'(5) j by (simp only: n)
    ultimately show "y_open_loop r' ! j = y_open_loop r ! j"
      by (simp only: ts assms(4))
  qed
  with r(1) r'(1) show ?thesis
    by blast
qed

end
